theory Spec2Isabelle
  imports Main "HOL-Library.Sublist" "HOL-Library.Multiset"
begin

section \<open>JavaScript values that flow through the pull-request command\<close>

text \<open>
  The option bag of \<^verbatim>\<open>lib/cmds/pull-request.js\<close> holds JavaScript values. A field
  that is either absent or a string is a \<open>string option\<close> (\<open>None\<close> is \<^verbatim>\<open>undefined\<close>).
  The pull-request number is the one field that holds numbers as well as strings: the
  command line gives a string, the remote API gives a number, and decoding a branch name
  gives a string. It is a \<open>jsval\<close>. \<open>Num n\<close> stands for the JavaScript number whose value
  is the non-negative integer \<open>n\<close>.
\<close>

datatype jsval = Undefined | Num nat | Str string

text \<open>JavaScript truthiness: \<^verbatim>\<open>undefined\<close>, \<^verbatim>\<open>0\<close> and \<^verbatim>\<open>''\<close> are falsy.\<close>

fun truthy :: "jsval \<Rightarrow> bool" where
  "truthy Undefined = False"
| "truthy (Num n) = (n \<noteq> 0)"
| "truthy (Str s) = (s \<noteq> [])"

text \<open>\<^verbatim>\<open>a || b\<close> on values.\<close>

definition js_or :: "jsval \<Rightarrow> jsval \<Rightarrow> jsval" where
  "js_or a b = (if truthy a then a else b)"

text \<open>Truthiness and \<^verbatim>\<open>||\<close> on a field that is a string or absent.\<close>

fun truthy_str :: "string option \<Rightarrow> bool" where
  "truthy_str None = False"
| "truthy_str (Some s) = (s \<noteq> [])"

definition str_or :: "string option \<Rightarrow> string option \<Rightarrow> string option" where
  "str_or a b = (if truthy_str a then a else b)"

definition jsval_of_str :: "string option \<Rightarrow> jsval" where
  "jsval_of_str x = (case x of None \<Rightarrow> Undefined | Some s \<Rightarrow> Str s)"

text \<open>
  The text of a number in string concatenation (\<^verbatim>\<open>prefix + number\<close>): the decimal
  numeral. JavaScript prints every integer below \<open>2 ^ 53\<close> this way.
\<close>

definition digit_char :: "nat \<Rightarrow> char" where
  "digit_char d = char_of (48 + d)"

fun number_to_string :: "nat \<Rightarrow> string" where
  "number_to_string n =
     (if n < 10 then [digit_char n]
      else number_to_string (n div 10) @ [digit_char (n mod 10)])"

declare number_to_string.simps [simp del]

text \<open>The operand of a string concatenation, for the values of this model.\<close>

fun js_to_string :: "jsval \<Rightarrow> string" where
  "js_to_string Undefined = ''undefined''"
| "js_to_string (Num n) = number_to_string n"
| "js_to_string (Str s) = s"

text \<open>
  \<^verbatim>\<open>String.prototype.replace(pattern, '')\<close> with a string pattern: the first
  occurrence of the pattern is removed, the rest is kept.
\<close>

fun replace_first_with_empty :: "string \<Rightarrow> string \<Rightarrow> string" where
  "replace_first_with_empty p [] = []"
| "replace_first_with_empty p (c # cs) =
     (if prefix p (c # cs) then drop (length p) (c # cs)
      else c # replace_first_with_empty p cs)"

text \<open>
  The numeric reading of decimal text. The source keeps a decoded number as text; this is
  how a caller (or JavaScript's \<^verbatim>\<open>==\<close> against a number) reads that text.
\<close>

definition digit_value :: "char \<Rightarrow> nat option" where
  "digit_value c =
     (let k = (of_char c :: nat) in if 48 \<le> k \<and> k < 58 then Some (k - 48) else None)"

fun decimal_value_from :: "nat \<Rightarrow> string \<Rightarrow> nat option" where
  "decimal_value_from acc [] = Some acc"
| "decimal_value_from acc (c # cs) =
     (case digit_value c of None \<Rightarrow> None
      | Some d \<Rightarrow> decimal_value_from (10 * acc + d) cs)"

definition decimal_value :: "string \<Rightarrow> nat option" where
  "decimal_value s = (if s = [] then None else decimal_value_from 0 s)"

section \<open>Configuration\<close>

text \<open>The fields of \<^verbatim>\<open>base.getConfig()\<close> that the command reads.\<close>

record config =
  pull_branch_name_prefix :: string
  default_branch :: "string option"
  default_remote :: "string option"
  default_pr_forwarder :: "string option"
  default_pr_reviewer :: "string option"

section \<open>Branch names and pull-request numbers\<close>

text \<open>
  \<^verbatim>\<open>getBranchNameFromPullNumber_(number)\<close>: the prefix and the number, when the number
  is truthy; \<^verbatim>\<open>undefined\<close> otherwise.
\<close>

definition getBranchNameFromPullNumber :: "config \<Rightarrow> jsval \<Rightarrow> string option" where
  "getBranchNameFromPullNumber cfg number =
     (if truthy number then Some (pull_branch_name_prefix cfg @ js_to_string number)
      else None)"

text \<open>
  \<^verbatim>\<open>getPullRequestNumberFromBranch_(currentBranch, prefix)\<close>: the branch name without
  the prefix, as text, when the branch name is truthy and starts with the prefix.
\<close>

definition getPullRequestNumberFromBranch :: "string option \<Rightarrow> string \<Rightarrow> string option" where
  "getPullRequestNumberFromBranch currentBranch pfx =
     (case currentBranch of
        None \<Rightarrow> None
      | Some b \<Rightarrow>
          if b \<noteq> [] \<and> prefix pfx b then Some (replace_first_with_empty pfx b) else None)"

section \<open>Complexity\<close>

text \<open>The size metrics of one pull request's detail record.\<close>

record metrics =
  additions :: nat
  changedFiles :: nat
  comments :: nat
  deletions :: nat
  reviewComments :: nat

definition weightAddition :: nat where "weightAddition = 2"
definition weightChangedFile :: nat where "weightChangedFile = 2"
definition weightComment :: nat where "weightComment = 2"
definition weightDeletion :: nat where "weightDeletion = 2"
definition weightReviewComment :: nat where "weightReviewComment = 1"

definition calculateComplexity :: "metrics \<Rightarrow> nat" where
  "calculateComplexity m =
     additions m * weightAddition +
     changedFiles m * weightChangedFile +
     comments m * weightComment +
     deletions m * weightDeletion +
     reviewComments m * weightReviewComment"

section \<open>Pull requests, options and the remote API\<close>

definition DIRECTION_DESC :: string where "DIRECTION_DESC = ''desc''"
definition DIRECTION_ASC :: string where "DIRECTION_ASC = ''asc''"
definition SORT_CREATED :: string where "SORT_CREATED = ''created''"
definition SORT_COMPLEXITY :: string where "SORT_COMPLEXITY = ''complexity''"
definition STATE_CLOSED :: string where "STATE_CLOSED = ''closed''"
definition STATE_OPEN :: string where "STATE_OPEN = ''open''"

text \<open>
  The four fetch types the source passes to \<^verbatim>\<open>fetch\<close>: \<^verbatim>\<open>'checkout'\<close>, \<^verbatim>\<open>'merge'\<close>,
  \<^verbatim>\<open>'rebase'\<close> and \<^verbatim>\<open>'silent'\<close>.
\<close>

datatype fetch_type =
  FETCH_TYPE_CHECKOUT | FETCH_TYPE_MERGE | FETCH_TYPE_REBASE | FETCH_TYPE_SILENT

text \<open>
  A pull request as the remote API returns it in a listing. \<open>p_complexity\<close> and
  \<open>p_combinedStatus\<close> are the two fields the command adds to the object; both start
  absent. \<open>p_base_user_login\<close> is \<^verbatim>\<open>base.user.login\<close>, and so on.
\<close>

record pull =
  p_number :: nat
  p_title :: string
  p_body :: "string option"
  p_user_login :: string
  p_base_ref :: string
  p_base_sha :: string
  p_base_user_login :: string
  p_head_ref :: string
  p_head_sha :: string
  p_head_user_login :: string
  p_head_repo_ssh_url :: string
  p_html_url :: string
  p_complexity :: "nat option"
  p_combinedStatus :: "string option"

text \<open>The detail record of one pull request carries the size metrics as well.\<close>

record pull_detail = pull +
  p_additions :: nat
  p_changed_files :: nat
  p_comments :: nat
  p_deletions :: nat
  p_review_comments :: nat

record repository =
  r_owner_login :: string
  r_name :: string

text \<open>An error of the remote API, with the \<^verbatim>\<open>code\<close> the source tests.\<close>

datatype error = ApiError (code: nat) (message: string)

text \<open>The option bag \<^verbatim>\<open>this.options\<close>, with the fields the modelled functions use.\<close>

record options =
  o_number :: jsval
  o_currentBranch :: "string option"
  o_pullBranch :: "string option"
  o_branch :: "string option"
  o_state :: "string option"
  o_sort :: "string option"
  o_direction :: "string option"
  o_user :: "string option"
  o_repo :: "string option"
  o_org :: "string option"
  o_loggedUser :: "string option"
  o_title :: "string option"
  o_description :: "string option"
  o_issue :: "nat option"
  o_comment :: "string option"
  o_fwd :: "string option"
  o_submit :: "string option"
  o_all :: bool
  o_browser :: bool
  o_close :: bool
  o_fetch :: bool
  o_info :: bool
  o_list :: bool
  o_me :: bool
  o_merge :: bool
  o_open :: bool
  o_rebase :: bool

text \<open>Request payloads, one record for each shape the source builds.\<close>

record getAll_payload =
  ga_direction :: "string option"
  ga_repo :: "string option"
  ga_sort :: "string option"
  ga_state :: "string option"
  ga_user :: "string option"

record get_payload =
  g_number :: jsval
  g_repo :: "string option"
  g_user :: "string option"

record create_payload =
  c_base :: "string option"
  c_head :: string
  c_repo :: "string option"
  c_user :: "string option"
  c_issue :: "nat option"
  c_body :: "string option"
  c_title :: "string option"

record status_payload =
  s_repo :: "string option"
  s_user :: "string option"
  s_sha :: string

record repos_payload =
  rp_type :: string
  rp_user :: "string option"
  rp_per_page :: nat
  rp_org :: "string option"

text \<open>
  The remote API (\<^verbatim>\<open>base.github\<close>) is a collaborator outside the source. Each method
  answers a payload by calling back with an error (\<open>Inl\<close>, no data) or with the data
  (\<open>Inr\<close>, no error).
\<close>

record github =
  pullRequests_getAll :: "getAll_payload \<Rightarrow> error + pull list"
  pullRequests_get :: "get_payload \<Rightarrow> error + pull_detail"
  pullRequests_create :: "create_payload \<Rightarrow> error + pull"
  pullRequests_createFromIssue :: "create_payload \<Rightarrow> error + pull"
  statuses_getCombined :: "status_payload \<Rightarrow> error + string"
  repos_getAll :: "repos_payload \<Rightarrow> error + repository list"
  repos_getFromOrg :: "repos_payload \<Rightarrow> error + repository list"

text \<open>
  What the command does to the outside, in order: requests to the remote API, calls of
  the version-control collaborator \<^verbatim>\<open>git\<close>, warnings, and the printed listing of one
  repository (the groups of \<^verbatim>\<open>json.branches\<close>).
\<close>

datatype request =
    Req_getAll getAll_payload
  | Req_get get_payload
  | Req_create create_payload
  | Req_createFromIssue create_payload
  | Req_getCombined status_payload
  | Req_repos_getAll repos_payload
  | Req_repos_getFromOrg repos_payload

datatype git_call =
    Git_fetch string string "string option"
  | Git_checkout "string option"
  | Git_merge "string option"
  | Git_rebase "string option"
  | Git_push "string option" "string option"
  | Git_getLastCommitMessage "string option"

record branch_group =
  bg_name :: string
  bg_pulls :: "pull list"
  bg_total :: nat

datatype event =
    Request request
  | Git git_call
  | Warn string
  | Print_listing "string option" "string option" "branch_group list"

text \<open>The mutable state of one invocation: the option bag and what was done so far.\<close>

record world =
  w_options :: options
  w_trace :: "event list"

definition emit :: "event \<Rightarrow> world \<Rightarrow> world" where
  "emit e w = w\<lparr>w_trace := w_trace w @ [e]\<rparr>"

text \<open>
  The text of an absent or present string in a concatenation
  (\<^verbatim>\<open>options.user + ':' + pullBranch\<close>).
\<close>

fun str_text :: "string option \<Rightarrow> string" where
  "str_text None = ''undefined''"
| "str_text (Some s) = s"

section \<open>Fetching one pull request\<close>

text \<open>\<^verbatim>\<open>getPullRequest_\<close>: one \<^verbatim>\<open>pullRequests.get\<close> for the number in the options.\<close>

definition getPullRequest :: "github \<Rightarrow> world \<Rightarrow> world \<times> (error + pull_detail)" where
  "getPullRequest gh w =
     (let payload = \<lparr>g_number = o_number (w_options w),
                      g_repo = o_repo (w_options w),
                      g_user = o_user (w_options w)\<rparr>
      in (emit (Request (Req_get payload)) w, pullRequests_get gh payload))"

text \<open>
  \<^verbatim>\<open>git[opt_type](branch)\<close>: the call of \<^verbatim>\<open>git\<close> that a fetch type names. The silent
  type names none, and \<^verbatim>\<open>fetch\<close> does not ask for it.
\<close>

fun git_by_type :: "fetch_type \<Rightarrow> string option \<Rightarrow> git_call list" where
  "git_by_type FETCH_TYPE_CHECKOUT b = [Git_checkout b]"
| "git_by_type FETCH_TYPE_MERGE b = [Git_merge b]"
| "git_by_type FETCH_TYPE_REBASE b = [Git_rebase b]"
| "git_by_type FETCH_TYPE_SILENT b = []"

text \<open>
  \<^verbatim>\<open>fetch(opt_type, opt_callback)\<close>. The result is what the callback receives: the error,
  or the pull request. The calls of \<^verbatim>\<open>git\<close> are written to the trace.
\<close>

definition fetch :: "github \<Rightarrow> fetch_type \<Rightarrow> world \<Rightarrow> world \<times> (error + pull_detail)" where
  "fetch gh opt_type w =
     (case getPullRequest gh w of
        (w1, Inl err) \<Rightarrow> (w1, Inl err)
      | (w1, Inr pull) \<Rightarrow>
          (let headBranch = p_head_ref pull;
               repoUrl = p_head_repo_ssh_url pull;
               w2 = emit (Git (Git_fetch repoUrl headBranch (o_pullBranch (w_options w1)))) w1;
               w3 = (if opt_type \<noteq> FETCH_TYPE_SILENT
                     then foldl (\<lambda>v g. emit (Git g) v) w2
                            (git_by_type opt_type (o_pullBranch (w_options w2)))
                     else w2)
           in (w3, Inr pull)))"

section \<open>Complexity of listed pull requests\<close>

text \<open>
  \<^verbatim>\<open>addComplexityParamToPulls_\<close>: one operation for each pull request, run in series.
  Each writes the pull request's number into the options, fetches the detail record and,
  when that succeeds, stores the complexity in the listed pull request. The series stops
  at the first error. The result is what the final callback receives.
\<close>

fun addComplexityParamToPulls ::
  "github \<Rightarrow> world \<Rightarrow> pull list \<Rightarrow> world \<times> error option \<times> pull list" where
  "addComplexityParamToPulls gh w [] = (w, None, [])"
| "addComplexityParamToPulls gh w (pull # rest) =
     (let w1 = w\<lparr>w_options := (w_options w)\<lparr>o_number := Num (p_number pull)\<rparr>\<rparr> in
      case getPullRequest gh w1 of
        (w2, Inl err) \<Rightarrow> (w2, Some err, [pull])
      | (w2, Inr pull2) \<Rightarrow>
          (let m = \<lparr>additions = p_additions pull2,
                    changedFiles = p_changed_files pull2,
                    comments = p_comments pull2,
                    deletions = p_deletions pull2,
                    reviewComments = p_review_comments pull2\<rparr>;
               pull' = pull\<lparr>p_complexity := Some (calculateComplexity m)\<rparr>
           in case addComplexityParamToPulls gh w2 rest of
                (w3, err, results) \<Rightarrow> (w3, err, pull' # results)))"

text \<open>
  The comparison function of \<^verbatim>\<open>sortPullsByComplexity_\<close>. A comparison with an absent
  complexity is false in JavaScript.
\<close>

definition complexity_greater :: "pull \<Rightarrow> pull \<Rightarrow> bool" where
  "complexity_greater a b =
     (case (p_complexity a, p_complexity b) of
        (Some x, Some y) \<Rightarrow> x > y
      | _ \<Rightarrow> False)"

definition compareComplexity :: "pull \<Rightarrow> pull \<Rightarrow> int" where
  "compareComplexity a b =
     (if complexity_greater a b then - 1
      else if complexity_greater b a then 1
      else 0)"

text \<open>
  \<^verbatim>\<open>Array.prototype.sort(compare)\<close>. The language fixes the result for a consistent
  comparison function: the elements in the order of the comparison, equal elements in
  their original order (the sort is stable since ECMAScript 2019). Insertion from the
  right computes it.
\<close>

fun insert_by :: "('a \<Rightarrow> 'a \<Rightarrow> int) \<Rightarrow> 'a \<Rightarrow> 'a list \<Rightarrow> 'a list" where
  "insert_by cmp x [] = [x]"
| "insert_by cmp x (y # ys) =
     (if cmp x y \<le> 0 then x # y # ys else y # insert_by cmp x ys)"

definition array_sort :: "('a \<Rightarrow> 'a \<Rightarrow> int) \<Rightarrow> 'a list \<Rightarrow> 'a list" where
  "array_sort cmp xs = foldr (insert_by cmp) xs []"

definition sortPullsByComplexity :: "options \<Rightarrow> pull list \<Rightarrow> pull list" where
  "sortPullsByComplexity opts data =
     (let sorted_data = array_sort compareComplexity data
      in if o_direction opts = Some DIRECTION_ASC then rev sorted_data else sorted_data)"

section \<open>Listing\<close>

definition filterPullsSentByMe :: "options \<Rightarrow> pull list \<Rightarrow> pull list" where
  "filterPullsSentByMe opts pulls =
     filter (\<lambda>pull. o_loggedUser opts = Some (p_user_login pull)) pulls"

text \<open>
  \<^verbatim>\<open>getPullsTemplateJson_\<close>: the pull requests grouped by base branch, the groups in
  the order in which their branches are first seen. (\<^verbatim>\<open>Object.keys\<close> puts names that
  are array indices first; branch names are taken not to be such.)
\<close>

fun add_to_branches :: "pull \<Rightarrow> (string \<times> pull list) list \<Rightarrow> (string \<times> pull list) list" where
  "add_to_branches pull [] = [(p_base_ref pull, [pull])]"
| "add_to_branches pull ((name, ps) # bs) =
     (if name = p_base_ref pull then (name, ps @ [pull]) # bs
      else (name, ps) # add_to_branches pull bs)"

definition getPullsTemplateJson :: "options \<Rightarrow> pull list \<Rightarrow> branch_group list" where
  "getPullsTemplateJson opts pulls =
     map (\<lambda>(name, ps). \<lparr>bg_name = name, bg_pulls = ps, bg_total = length ps\<rparr>)
       (foldl (\<lambda>branches pull.
                 if \<not> truthy_str (o_branch opts) \<or> o_branch opts = Some (p_base_ref pull)
                 then add_to_branches pull branches else branches)
          [] pulls)"

text \<open>The payload of the listing request: complexity is replaced by created.\<close>

definition list_payload ::
  "options \<Rightarrow> string option \<Rightarrow> string option \<Rightarrow> getAll_payload" where
  "list_payload opts user repo =
     (let sort0 = o_sort opts;
          sort1 = (if o_sort opts = Some SORT_COMPLEXITY then Some SORT_CREATED else sort0)
      in \<lparr>ga_direction = o_direction opts, ga_repo = repo, ga_sort = sort1,
          ga_state = o_state opts, ga_user = user\<rparr>)"

text \<open>
  First operation of \<^verbatim>\<open>list\<close>: the listing request. An error with code 404 becomes a
  warning and the operation succeeds with no pull requests.
\<close>

definition list_getAll ::
  "github \<Rightarrow> string option \<Rightarrow> getAll_payload \<Rightarrow> world \<Rightarrow> world \<times> error option \<times> pull list" where
  "list_getAll gh user payload w =
     (let w1 = emit (Request (Req_getAll payload)) w in
      case pullRequests_getAll gh payload of
        Inr data \<Rightarrow>
          (w1, None,
           if o_me (w_options w1) then filterPullsSentByMe (w_options w1) data else data)
      | Inl err \<Rightarrow>
          if code err = 404
          then (emit (Warn (''Can't list pull requests for '' @ str_text user @ ''/''
                              @ str_text (ga_repo payload))) w1,
                None, [])
          else (w1, Some err, []))"

text \<open>Second operation: complexity and the sort by it, when that sort was asked for.\<close>

definition list_complexity ::
  "github \<Rightarrow> world \<Rightarrow> pull list \<Rightarrow> world \<times> error option \<times> pull list" where
  "list_complexity gh w pulls =
     (if o_sort (w_options w) = Some SORT_COMPLEXITY
      then (case addComplexityParamToPulls gh w pulls of
              (w1, None, data) \<Rightarrow> (w1, None, sortPullsByComplexity (w_options w1) data)
            | (w1, Some err, data) \<Rightarrow> (w1, Some err, pulls))
      else (w, None, pulls))"

text \<open>
  Third operation: the combined status of each pull request, one request after the other.
  The callback reads \<^verbatim>\<open>data.state\<close> before it looks at the error; on an error there is
  no data, and the read throws. \<open>None\<close> is that exception.
\<close>

fun list_statuses ::
  "github \<Rightarrow> string option \<Rightarrow> string option \<Rightarrow> world \<Rightarrow> pull list
     \<Rightarrow> world \<times> pull list option" where
  "list_statuses gh user repo w [] = (w, Some [])"
| "list_statuses gh user repo w (pull # rest) =
     (let statusPayload = \<lparr>s_repo = repo, s_user = user, s_sha = p_head_sha pull\<rparr>;
          w1 = emit (Request (Req_getCombined statusPayload)) w
      in case statuses_getCombined gh statusPayload of
           Inl err \<Rightarrow> (w1, None)
         | Inr st \<Rightarrow>
             (case list_statuses gh user repo w1 rest of
                (w2, None) \<Rightarrow> (w2, None)
              | (w2, Some rest') \<Rightarrow>
                  (w2, Some (pull\<lparr>p_combinedStatus := Some st\<rparr> # rest'))))"

text \<open>
  What one call of \<^verbatim>\<open>list\<close> ends with: the callback without an error (with the pull
  requests and their groups), the callback with an error, or an exception nobody catches.
\<close>

datatype list_outcome =
    Listed "pull list" "branch_group list"
  | List_failed error
  | List_threw

definition list_pulls ::
  "github \<Rightarrow> string option \<Rightarrow> string option \<Rightarrow> world \<Rightarrow> world \<times> list_outcome" where
  "list_pulls gh user repo w =
     (let payload = list_payload (w_options w) user repo in
      case list_getAll gh user payload w of
        (w1, Some err, pulls) \<Rightarrow> (w1, List_failed err)
      | (w1, None, pulls) \<Rightarrow>
          (case list_complexity gh w1 pulls of
             (w2, Some err, pulls2) \<Rightarrow> (w2, List_failed err)
           | (w2, None, pulls2) \<Rightarrow>
               (case list_statuses gh user repo w2 pulls2 of
                  (w3, None) \<Rightarrow> (w3, List_threw)
                | (w3, Some pulls3) \<Rightarrow>
                    (let json = getPullsTemplateJson (w_options w3) pulls3;
                         w4 = (if pulls3 \<noteq> [] then emit (Print_listing user repo json) w3
                               else w3)
                     in (w4, Listed pulls3 json)))))"

text \<open>
  \<^verbatim>\<open>listFromAllRepositories\<close>: the repositories of the organization when one is given,
  of the user otherwise, and one \<^verbatim>\<open>list\<close> for each. The result has one entry for each
  time the callback runs. The listings are taken one after the other, in the order of the
  repositories; an exception nobody catches ends the process, and with it the listings
  that have not run. (The source starts all the listings at once and lets their callbacks
  interleave; the only state they share is the number in the options, which each
  operation writes just before it reads it.)
\<close>

fun list_each :: "github \<Rightarrow> world \<Rightarrow> repository list \<Rightarrow> world \<times> list_outcome list" where
  "list_each gh w [] = (w, [])"
| "list_each gh w (repository # rest) =
     (case list_pulls gh (Some (r_owner_login repository)) (Some (r_name repository)) w of
        (w1, List_threw) \<Rightarrow> (w1, [List_threw])
      | (w1, out) \<Rightarrow>
          (case list_each gh w1 rest of (w2, outs) \<Rightarrow> (w2, out # outs)))"

text \<open>The request for the repositories: \<^verbatim>\<open>base.github.repos[apiMethod](payload, ...)\<close>.\<close>

definition all_repositories :: "github \<Rightarrow> options \<Rightarrow> request \<times> (error + repository list)" where
  "all_repositories gh options =
     (let payload = \<lparr>rp_type = ''all'', rp_user = o_user options, rp_per_page = 100,
                      rp_org = None\<rparr>
      in if truthy_str (o_org options)
         then (let payload' = payload\<lparr>rp_org := o_org options\<rparr>
               in (Req_repos_getFromOrg payload', repos_getFromOrg gh payload'))
         else (Req_repos_getAll payload, repos_getAll gh payload))"

definition listFromAllRepositories :: "github \<Rightarrow> world \<Rightarrow> world \<times> list_outcome list" where
  "listFromAllRepositories gh w =
     (case all_repositories gh (w_options w) of
        (req, Inl err) \<Rightarrow> (emit (Request req) w, [List_failed err])
      | (req, Inr repositories) \<Rightarrow> list_each gh (emit (Request req) w) repositories)"

section \<open>Submitting\<close>

text \<open>
  The test of \<^verbatim>\<open>checkPullRequestIntegrity_\<close> on one open pull request. \<^verbatim>\<open>===\<close> between
  a string of the pull request and a field that may be absent holds only when the field
  is that string.
\<close>

definition integrity_match :: "options \<Rightarrow> string option \<Rightarrow> pull \<Rightarrow> bool" where
  "integrity_match opts user data \<longleftrightarrow>
     Some (p_base_ref data) = o_branch opts \<and>
     Some (p_head_ref data) = o_currentBranch opts \<and>
     p_base_sha data = p_head_sha data \<and>
     Some (p_base_user_login data) = user \<and>
     Some (p_head_user_login data) = o_user opts"





section \<open>The command\<close>

text \<open>
  What \<^verbatim>\<open>run\<close> starts, in order. The handlers themselves run behind the hook mechanism;
  every request and every call of \<^verbatim>\<open>git\<close> of the command is made by one of them.
\<close>

datatype action =
    Browser "string option" "string option" jsval
  | CloseHandler
  | CommentHandler
  | FetchHandler
  | MergeHandler
  | FwdHandler
  | InfoHandler
  | ListHandler
  | OpenHandler
  | SubmitHandler

datatype run_result = Fatal string | Dispatched options "action list"

text \<open>
  Modelled from the spec: \<^verbatim>\<open>logger.error\<close> (\<^verbatim>\<open>lib/logger.js\<close> is not among the sources).
  The spec calls the missing-number error fatal: the invocation is aborted there, before
  any dispatch, and nothing after the call runs.
\<close>

definition logger_error :: "string \<Rightarrow> run_result" where
  "logger_error msg = Fatal msg"

definition when_action :: "bool \<Rightarrow> action \<Rightarrow> action list" where
  "when_action b a = (if b then [a] else [])"

definition run :: "config \<Rightarrow> options \<Rightarrow> run_result" where
  "run cfg options0 =
     (let o1 = options0\<lparr>o_number :=
                 js_or (o_number options0)
                   (jsval_of_str (getPullRequestNumberFromBranch (o_currentBranch options0)
                      (pull_branch_name_prefix cfg)))\<rparr>;
          o2 = o1\<lparr>o_pullBranch := getBranchNameFromPullNumber cfg (o_number o1)\<rparr>;
          o3 = o2\<lparr>o_state := str_or (o_state o2) (Some STATE_OPEN)\<rparr>
      in if \<not> truthy_str (o_pullBranch o3) \<and> (o_close o3 \<or> o_fetch o3 \<or> o_merge o3)
         then logger_error ''You've invoked a method that requires an issue number.''
         else
           (let a1 = when_action (o_browser o3) (Browser (o_user o3) (o_repo o3) (o_number o3));
                o4 = (if \<not> o_list o3
                      then o3\<lparr>o_branch := str_or (o_branch o3) (default_branch cfg)\<rparr>
                      else o3);
                a2 = when_action (o_close o4) CloseHandler;
                a3 = when_action (truthy_str (o_comment o4)) CommentHandler;
                a4 = (if o_fetch o4 then [FetchHandler]
                      else if o_merge o4 \<or> o_rebase o4 then [MergeHandler]
                      else []);
                o5 = (if o_fwd o4 = Some [] then o4\<lparr>o_fwd := default_pr_forwarder cfg\<rparr>
                      else o4);
                a5 = when_action (truthy_str (o_fwd o5)) FwdHandler;
                a6 = when_action (o_info o5) InfoHandler;
                a7 = when_action (o_list o5) ListHandler;
                a8 = when_action (o_open o5) OpenHandler;
                o6 = (if o_submit o5 = Some [] then o5\<lparr>o_submit := default_pr_reviewer cfg\<rparr>
                      else o5);
                a9 = when_action (truthy_str (o_submit o6)) SubmitHandler
            in Dispatched o6 (a1 @ a2 @ a3 @ a4 @ a5 @ a6 @ a7 @ a8 @ a9)))"

section \<open>Notions used in the proofs\<close>

text \<open>
  Two states whose options agree on every field but the pull-request number; the traces
  are free.
\<close>

definition same_but_number :: "world \<Rightarrow> world \<Rightarrow> bool" where
  "same_but_number w w' \<longleftrightarrow>
     (w_options w)\<lparr>o_number := Undefined\<rparr> = (w_options w')\<lparr>o_number := Undefined\<rparr>"

text \<open>
  One operation of \<^verbatim>\<open>addComplexityParamToPulls_\<close> in parts: the payload of its detail
  request, the state after the request, and the listed pull request with its complexity.
\<close>

definition detail_payload :: "world \<Rightarrow> pull \<Rightarrow> get_payload" where
  "detail_payload w pull =
     \<lparr>g_number = Num (p_number pull), g_repo = o_repo (w_options w),
      g_user = o_user (w_options w)\<rparr>"

definition detail_world :: "world \<Rightarrow> pull \<Rightarrow> world" where
  "detail_world w pull =
     emit (Request (Req_get (detail_payload w pull)))
       (w\<lparr>w_options := (w_options w)\<lparr>o_number := Num (p_number pull)\<rparr>\<rparr>)"

definition with_complexity :: "pull \<Rightarrow> pull_detail \<Rightarrow> pull" where
  "with_complexity pull pull2 =
     pull\<lparr>p_complexity := Some (calculateComplexity
        \<lparr>additions = p_additions pull2, changedFiles = p_changed_files pull2,
         comments = p_comments pull2, deletions = p_deletions pull2,
         reviewComments = p_review_comments pull2\<rparr>)\<rparr>"

text \<open>The events that are listing requests (\<^verbatim>\<open>pullRequests.getAll\<close>).\<close>

fun is_listing_request :: "event \<Rightarrow> bool" where
  "is_listing_request (Request (Req_getAll payload)) = True"
| "is_listing_request e = False"

section \<open>Example data\<close>

text \<open>
  Concrete options, pull requests and a remote, on which the theorems below are
  evaluated. The remote answers a listing request for the repository \<^verbatim>\<open>disabled\<close> with
  the error 404 and any other with two pull requests; a detail request with the pull
  request of that number, whose complexity is \<open>2 * n + 2\<close>; a creation with an error.
\<close>

definition example_options :: options where
  "example_options =
     \<lparr>o_number = Undefined, o_currentBranch = None, o_pullBranch = None, o_branch = None,
      o_state = None, o_sort = None, o_direction = None, o_user = None, o_repo = None,
      o_org = None, o_loggedUser = None, o_title = None, o_description = None,
      o_issue = None, o_comment = None, o_fwd = None, o_submit = None, o_all = False,
      o_browser = False, o_close = False, o_fetch = False, o_info = False, o_list = False,
      o_me = False, o_merge = False, o_open = False, o_rebase = False\<rparr>"

definition example_config :: config where
  "example_config =
     \<lparr>pull_branch_name_prefix = ''pr-'', default_branch = Some ''master'',
      default_remote = Some ''origin'', default_pr_forwarder = None,
      default_pr_reviewer = None\<rparr>"

definition example_world :: "options \<Rightarrow> world" where
  "example_world opts = \<lparr>w_options = opts, w_trace = []\<rparr>"

definition example_pull :: "nat \<Rightarrow> nat option \<Rightarrow> pull" where
  "example_pull n c =
     \<lparr>p_number = n, p_title = ''title'', p_body = None, p_user_login = ''alice'',
      p_base_ref = ''master'', p_base_sha = ''b0'', p_base_user_login = ''upstream'',
      p_head_ref = ''feature'', p_head_sha = ''h0'', p_head_user_login = ''alice'',
      p_head_repo_ssh_url = ''git@host:alice/repo.git'', p_html_url = ''https://host/pull'',
      p_complexity = c, p_combinedStatus = None\<rparr>"

definition example_detail :: "nat \<Rightarrow> pull_detail" where
  "example_detail n =
     \<lparr>p_number = n, p_title = ''title'', p_body = None, p_user_login = ''alice'',
      p_base_ref = ''master'', p_base_sha = ''b0'', p_base_user_login = ''upstream'',
      p_head_ref = ''feature'', p_head_sha = ''h0'', p_head_user_login = ''alice'',
      p_head_repo_ssh_url = ''git@host:alice/repo.git'', p_html_url = ''https://host/pull'',
      p_complexity = None, p_combinedStatus = None,
      p_additions = n, p_changed_files = 1, p_comments = 0, p_deletions = 0,
      p_review_comments = 0\<rparr>"

definition example_detail_of :: "get_payload \<Rightarrow> error + pull_detail" where
  "example_detail_of payload =
     (case g_number payload of
        Num n \<Rightarrow> Inr (example_detail n)
      | _ \<Rightarrow> Inl (ApiError 404 ''Not Found''))"

definition example_listing_of :: "getAll_payload \<Rightarrow> error + pull list" where
  "example_listing_of payload =
     (if ga_repo payload = Some ''disabled'' then Inl (ApiError 404 ''Not Found'')
      else Inr [example_pull 1 None, example_pull 2 None])"

definition example_repositories :: "repository list" where
  "example_repositories =
     [\<lparr>r_owner_login = ''alice'', r_name = ''one''\<rparr>,
      \<lparr>r_owner_login = ''alice'', r_name = ''disabled''\<rparr>,
      \<lparr>r_owner_login = ''alice'', r_name = ''two''\<rparr>]"

definition example_github ::
  "(getAll_payload \<Rightarrow> error + pull list) \<Rightarrow> (get_payload \<Rightarrow> error + pull_detail)
     \<Rightarrow> (error + pull) \<Rightarrow> (error + repository list) \<Rightarrow> github" where
  "example_github listing detail created repositories =
     \<lparr>pullRequests_getAll = listing, pullRequests_get = detail,
      pullRequests_create = (\<lambda>payload. created),
      pullRequests_createFromIssue = (\<lambda>payload. created),
      statuses_getCombined = (\<lambda>payload. Inr ''success''),
      repos_getAll = (\<lambda>payload. repositories),
      repos_getFromOrg = (\<lambda>payload. repositories)\<rparr>"

definition example_remote :: github where
  "example_remote =
     example_github example_listing_of example_detail_of
       (Inl (ApiError 422 ''Validation Failed'')) (Inr example_repositories)"

definition example_listed :: "pull list" where
  "example_listed =
     [(example_pull 2 (Some 6))\<lparr>p_combinedStatus := Some ''success''\<rparr>,
      (example_pull 1 (Some 4))\<lparr>p_combinedStatus := Some ''success''\<rparr>]"

definition example_unsorted :: "pull list" where
  "example_unsorted =
     [(example_pull 1 None)\<lparr>p_combinedStatus := Some ''success''\<rparr>,
      (example_pull 2 None)\<lparr>p_combinedStatus := Some ''success''\<rparr>]"

lemmas example_defs =
  example_world_def example_options_def example_config_def example_pull_def
  example_detail_def example_github_def example_detail_of_def example_listing_of_def
  example_repositories_def example_remote_def

section \<open>Properties of the codec\<close>

lemma replace_first_with_empty_prefix:
  "prefix p s \<Longrightarrow> replace_first_with_empty p s = drop (length p) s"
  by (cases s) auto

lemma digit_value_digit_char: "d < 10 \<Longrightarrow> digit_value (digit_char d) = Some d"
  by (simp add: digit_value_def digit_char_def Let_def)

lemma decimal_value_from_append:
  "decimal_value_from acc (xs @ ys) =
     (case decimal_value_from acc xs of None \<Rightarrow> None | Some v \<Rightarrow> decimal_value_from v ys)"
  by (induction xs arbitrary: acc) (auto split: option.splits)

lemma decimal_value_from_number_to_string:
  "decimal_value_from 0 (number_to_string n) = Some n"
proof (induction n rule: number_to_string.induct)
  case (1 n)
  show ?case
  proof (cases "n < 10")
    case True
    then show ?thesis
      by (simp add: number_to_string.simps [of n] digit_value_digit_char)
  next
    case False
    with 1 have "decimal_value_from 0 (number_to_string (n div 10)) = Some (n div 10)"
      by simp
    then show ?thesis
      using False
      by (simp add: number_to_string.simps [of n] decimal_value_from_append
          digit_value_digit_char)
  qed
qed

lemma number_to_string_nonempty: "number_to_string n \<noteq> []"
  by (subst number_to_string.simps) simp

lemma decimal_value_number_to_string: "decimal_value (number_to_string n) = Some n"
  by (simp add: decimal_value_def number_to_string_nonempty
      decimal_value_from_number_to_string)

lemma decode_prefixed:
  "pfx @ t \<noteq> [] \<Longrightarrow> getPullRequestNumberFromBranch (Some (pfx @ t)) pfx = Some t"
  by (simp add: getPullRequestNumberFromBranch_def replace_first_with_empty_prefix)

text \<open>
  The number \<^verbatim>\<open>0\<close> is falsy: encoding it gives \<^verbatim>\<open>undefined\<close>, and decoding
  \<^verbatim>\<open>undefined\<close> gives \<^verbatim>\<open>undefined\<close>, not the text of \<^verbatim>\<open>0\<close>.
\<close>

theorem decode_encode_zero_counterexample:
  "getPullRequestNumberFromBranch
     (getBranchNameFromPullNumber
        \<lparr>pull_branch_name_prefix = ''pr-'', default_branch = None, default_remote = None,
         default_pr_forwarder = None, default_pr_reviewer = None\<rparr> (Num 0)) ''pr-'' = None
   \<and> getPullRequestNumberFromBranch
     (getBranchNameFromPullNumber
        \<lparr>pull_branch_name_prefix = ''pr-'', default_branch = None, default_remote = None,
         default_pr_forwarder = None, default_pr_reviewer = None\<rparr> (Num 0)) ''pr-''
     \<noteq> Some (number_to_string 0)"
  by (simp add: getPullRequestNumberFromBranch_def getBranchNameFromPullNumber_def)

text \<open>
  Claim C2, as amended: for every positive integer \<open>n\<close> and every prefix, decoding the
  branch name that encodes \<open>n\<close> gives the decimal text of \<open>n\<close>, and that text reads
  back as \<open>n\<close>. (For \<open>n = 0\<close> the encoder gives no branch name.)
\<close>

theorem decode_encode_positive:
  "0 < n \<Longrightarrow>
   getPullRequestNumberFromBranch (getBranchNameFromPullNumber cfg (Num n))
     (pull_branch_name_prefix cfg) = Some (number_to_string n)
   \<and> decimal_value (number_to_string n) = Some n"
  by (simp add: getBranchNameFromPullNumber_def decode_prefixed number_to_string_nonempty
      decimal_value_number_to_string)

theorem decode_encode_positive_witness:
  "getPullRequestNumberFromBranch
     (getBranchNameFromPullNumber
        \<lparr>pull_branch_name_prefix = ''pr-'', default_branch = None, default_remote = None,
         default_pr_forwarder = None, default_pr_reviewer = None\<rparr> (Num 42)) ''pr-''
     = Some ''42''
   \<and> decimal_value ''42'' = Some 42"
proof -
  have text42: "number_to_string 42 = ''42''"
    by code_simp
  have pos: "0 < (42::nat)"
    by simp
  show ?thesis
    using decode_encode_positive [OF pos,
        of "\<lparr>pull_branch_name_prefix = ''pr-'', default_branch = None, default_remote = None,
         default_pr_forwarder = None, default_pr_reviewer = None\<rparr>"]
    by (simp add: text42)
qed

text \<open>
  The encoder is conditional: for the number \<^verbatim>\<open>0\<close> it returns \<^verbatim>\<open>undefined\<close>, not the
  prefix followed by \<^verbatim>\<open>0\<close>. The decoder returns \<^verbatim>\<open>undefined\<close> for the empty branch
  name although it starts with the empty prefix.
\<close>

theorem encode_unconditional_counterexample:
  "getBranchNameFromPullNumber
     \<lparr>pull_branch_name_prefix = ''pr-'', default_branch = None, default_remote = None,
      default_pr_forwarder = None, default_pr_reviewer = None\<rparr> (Num 0) = None
   \<and> getBranchNameFromPullNumber
     \<lparr>pull_branch_name_prefix = ''pr-'', default_branch = None, default_remote = None,
      default_pr_forwarder = None, default_pr_reviewer = None\<rparr> (Num 0)
     \<noteq> Some (''pr-'' @ number_to_string 0)
   \<and> prefix [] ([] :: string)
   \<and> getPullRequestNumberFromBranch (Some []) [] = None
   \<and> getPullRequestNumberFromBranch (Some []) [] \<noteq> Some (drop (length ([] :: string)) [])"
  by (simp add: getPullRequestNumberFromBranch_def getBranchNameFromPullNumber_def)

text \<open>
  Claim C3, as amended: the encoder returns the prefix followed by the number when the
  number is truthy (not absent, not \<^verbatim>\<open>0\<close>, not the empty string) and \<^verbatim>\<open>undefined\<close>
  otherwise. The decoder returns \<^verbatim>\<open>undefined\<close> unless the branch name is non-empty and
  starts with the prefix; otherwise it returns the branch name without the prefix, as
  text: the decoded text \<open>t\<close> is the one with \<open>branchName = pfx @ t\<close>.
\<close>

theorem codec_behaviour:
  "getBranchNameFromPullNumber cfg number =
     (if truthy number then Some (pull_branch_name_prefix cfg @ js_to_string number) else None)
   \<and> getPullRequestNumberFromBranch None pfx = None
   \<and> getPullRequestNumberFromBranch (Some branchName) pfx =
       (if branchName \<noteq> [] \<and> prefix pfx branchName
        then Some (drop (length pfx) branchName) else None)
   \<and> (getPullRequestNumberFromBranch (Some branchName) pfx = Some t
        \<longleftrightarrow> branchName \<noteq> [] \<and> branchName = pfx @ t)"
  by (auto simp: getBranchNameFromPullNumber_def getPullRequestNumberFromBranch_def
      replace_first_with_empty_prefix prefix_def)

section \<open>Properties of the complexity score\<close>

text \<open>
  Claim C4: the score is twice the additions, changed files, comments and deletions plus
  the review comments, and it grows strictly when one metric grows and the others stay.
  The metrics are natural numbers; the rounding of very large JavaScript numbers is
  outside this model.
\<close>

theorem calculateComplexity_score:
  "calculateComplexity m =
     2 * additions m + 2 * changedFiles m + 2 * comments m + 2 * deletions m
       + 1 * reviewComments m
   \<and> (\<forall>k k'. k < k' \<longrightarrow>
         calculateComplexity (m\<lparr>additions := k\<rparr>) < calculateComplexity (m\<lparr>additions := k'\<rparr>)
       \<and> calculateComplexity (m\<lparr>changedFiles := k\<rparr>) < calculateComplexity (m\<lparr>changedFiles := k'\<rparr>)
       \<and> calculateComplexity (m\<lparr>comments := k\<rparr>) < calculateComplexity (m\<lparr>comments := k'\<rparr>)
       \<and> calculateComplexity (m\<lparr>deletions := k\<rparr>) < calculateComplexity (m\<lparr>deletions := k'\<rparr>)
       \<and> calculateComplexity (m\<lparr>reviewComments := k\<rparr>)
           < calculateComplexity (m\<lparr>reviewComments := k'\<rparr>))"
  by (simp add: calculateComplexity_def weightAddition_def weightChangedFile_def
      weightComment_def weightDeletion_def weightReviewComment_def)

theorem calculateComplexity_score_witness:
  "calculateComplexity \<lparr>additions = 10, changedFiles = 2, comments = 1, deletions = 3,
      reviewComments = 4\<rparr> = 36
   \<and> calculateComplexity \<lparr>additions = 10, changedFiles = 2, comments = 1, deletions = 3,
      reviewComments = 4\<rparr>
     < calculateComplexity \<lparr>additions = 10, changedFiles = 2, comments = 1, deletions = 3,
      reviewComments = 5\<rparr>"
proof -
  let ?m = "\<lparr>additions = 10, changedFiles = 2, comments = 1, deletions = 3,
      reviewComments = 4\<rparr>"
  have step: "(4::nat) < 5"
    by simp
  from calculateComplexity_score [of ?m] step
  have "calculateComplexity (?m\<lparr>reviewComments := 4\<rparr>)
          < calculateComplexity (?m\<lparr>reviewComments := 5\<rparr>)"
    by blast
  moreover from calculateComplexity_score [of ?m]
  have "calculateComplexity ?m = 36"
    by simp
  ultimately show ?thesis
    by simp
qed

section \<open>Properties of the sort by complexity\<close>

lemma mset_insert_by: "mset (insert_by cmp x ys) = add_mset x (mset ys)"
  by (induction ys) auto

lemma mset_array_sort: "mset (array_sort cmp xs) = mset xs"
  by (induction xs) (auto simp: array_sort_def mset_insert_by)

lemma set_insert_by: "set (insert_by cmp x ys) = insert x (set ys)"
  by (induction ys) auto

lemma compareComplexity_pos:
  "\<not> compareComplexity x y \<le> 0 \<Longrightarrow> complexity_greater y x"
  by (auto simp: compareComplexity_def split: if_splits)

lemma complexity_greater_neq:
  "complexity_greater y x \<Longrightarrow> p_complexity y \<noteq> p_complexity x"
  by (auto simp: complexity_greater_def split: option.splits)

lemma filter_insert_by:
  "filter (\<lambda>p. p_complexity p = k) (insert_by compareComplexity x ys) =
     (if p_complexity x = k then x # filter (\<lambda>p. p_complexity p = k) ys
      else filter (\<lambda>p. p_complexity p = k) ys)"
proof (induction ys)
  case Nil
  show ?case by simp
next
  case (Cons y ys)
  show ?case
  proof (cases "compareComplexity x y \<le> 0")
    case True
    then show ?thesis by simp
  next
    case False
    then have "p_complexity y \<noteq> p_complexity x"
      by (intro complexity_greater_neq compareComplexity_pos)
    with False Cons show ?thesis
      by auto
  qed
qed

lemma filter_array_sort:
  "filter (\<lambda>p. p_complexity p = k) (array_sort compareComplexity xs) =
     filter (\<lambda>p. p_complexity p = k) xs"
  by (induction xs) (simp_all add: array_sort_def filter_insert_by)

lemma sorted_insert_by:
  assumes "\<forall>p\<in>set (x # ys). p_complexity p \<noteq> None"
    and "sorted_wrt (\<lambda>a b. \<not> complexity_greater b a) ys"
  shows "sorted_wrt (\<lambda>a b. \<not> complexity_greater b a) (insert_by compareComplexity x ys)"
  using assms
proof (induction ys)
  case Nil
  show ?case by simp
next
  case (Cons y ys)
  show ?case
  proof (cases "compareComplexity x y \<le> 0")
    case True
    then have xy: "\<not> complexity_greater y x"
      by (auto simp: compareComplexity_def complexity_greater_def
          split: if_splits option.splits)
    have "\<not> complexity_greater z x" if "z \<in> set ys" for z
      using that xy Cons.prems
      by (fastforce simp: complexity_greater_def split: option.splits)
    with True xy Cons.prems show ?thesis
      by auto
  next
    case False
    then have yx: "complexity_greater y x"
      by (rule compareComplexity_pos)
    have "sorted_wrt (\<lambda>a b. \<not> complexity_greater b a) (insert_by compareComplexity x ys)"
      using Cons by simp
    moreover have "\<not> complexity_greater z y" if "z \<in> set (insert_by compareComplexity x ys)" for z
      using that yx Cons.prems
      by (auto simp: set_insert_by complexity_greater_def split: option.splits)
    ultimately show ?thesis
      using False by simp
  qed
qed

lemma sorted_array_sort:
  "\<forall>p\<in>set xs. p_complexity p \<noteq> None \<Longrightarrow>
   sorted_wrt (\<lambda>a b. \<not> complexity_greater b a) (array_sort compareComplexity xs)"
proof (induction xs)
  case Nil
  show ?case by (simp add: array_sort_def)
next
  case (Cons x xs)
  have "set (array_sort compareComplexity xs) = set xs"
    using mset_array_sort [of compareComplexity xs] by (rule mset_eq_setD)
  with Cons show ?case
    using sorted_insert_by [of x "array_sort compareComplexity xs"]
    by (simp add: array_sort_def)
qed

lemma strictly_sorted:
  assumes "sorted_wrt (\<lambda>a b. \<not> complexity_greater b a) xs"
    and "\<forall>p\<in>set xs. p_complexity p \<noteq> None"
    and "distinct (map p_complexity xs)"
  shows "sorted_wrt complexity_greater xs"
  using assms
proof (induction xs)
  case Nil
  show ?case by simp
next
  case (Cons x xs)
  have "complexity_greater x z" if "z \<in> set xs" for z
  proof -
    from that Cons.prems have "\<not> complexity_greater z x" "p_complexity x \<noteq> p_complexity z"
      "p_complexity x \<noteq> None" "p_complexity z \<noteq> None"
      by auto
    then show ?thesis
      by (auto simp: complexity_greater_def split: option.splits)
  qed
  with Cons show ?case
    by simp
qed

lemma strictly_sorted_array_sort:
  assumes "\<forall>p\<in>set xs. p_complexity p \<noteq> None" and "distinct (map p_complexity xs)"
  shows "sorted_wrt complexity_greater (array_sort compareComplexity xs)"
proof -
  have m: "mset (array_sort compareComplexity xs) = mset xs"
    by (rule mset_array_sort)
  then have s: "set (array_sort compareComplexity xs) = set xs"
    by (rule mset_eq_setD)
  have "mset (map p_complexity (array_sort compareComplexity xs)) = mset (map p_complexity xs)"
    using m by simp
  then have "distinct (map p_complexity (array_sort compareComplexity xs))"
    using assms(2) by (metis mset_eq_imp_distinct_iff)
  with assms(1) s show ?thesis
    by (intro strictly_sorted sorted_array_sort) simp_all
qed

text \<open>
  Two pull requests of equal complexity, sorted in ascending direction, come out in the
  reverse of their original order: the whole descending sequence is reversed, ties
  included.
\<close>

theorem ties_reversed_counterexample:
  "sortPullsByComplexity (example_options\<lparr>o_direction := Some DIRECTION_ASC\<rparr>)
     [example_pull 1 (Some 5), example_pull 2 (Some 5)]
   = [example_pull 2 (Some 5), example_pull 1 (Some 5)]
   \<and> sortPullsByComplexity (example_options\<lparr>o_direction := Some DIRECTION_ASC\<rparr>)
     [example_pull 1 (Some 5), example_pull 2 (Some 5)]
   \<noteq> [example_pull 1 (Some 5), example_pull 2 (Some 5)]
   \<and> p_complexity (example_pull 1 (Some 5)) = p_complexity (example_pull 2 (Some 5))"
  by (simp add: sortPullsByComplexity_def array_sort_def compareComplexity_def
      complexity_greater_def example_pull_def)

text \<open>
  Claim C5, as amended: the sort keeps the pull requests (it permutes them); the result for
  direction \<^verbatim>\<open>asc\<close> is the exact reverse of the result for \<^verbatim>\<open>desc\<close>; pull requests of
  equal complexity keep their original order under any direction but \<^verbatim>\<open>asc\<close> and come
  in reverse original order under \<^verbatim>\<open>asc\<close>; and when every pull request has a complexity
  and the complexities are pairwise distinct, they are strictly decreasing along the
  result (strictly increasing under \<^verbatim>\<open>asc\<close>).
\<close>

theorem sortPullsByComplexity_order:
  "mset (sortPullsByComplexity opts data) = mset data
   \<and> sortPullsByComplexity (opts\<lparr>o_direction := Some DIRECTION_ASC\<rparr>) data
       = rev (sortPullsByComplexity (opts\<lparr>o_direction := Some DIRECTION_DESC\<rparr>) data)
   \<and> (o_direction opts \<noteq> Some DIRECTION_ASC \<longrightarrow>
        (\<forall>k. filter (\<lambda>p. p_complexity p = k) (sortPullsByComplexity opts data)
               = filter (\<lambda>p. p_complexity p = k) data))
   \<and> (o_direction opts = Some DIRECTION_ASC \<longrightarrow>
        (\<forall>k. filter (\<lambda>p. p_complexity p = k) (sortPullsByComplexity opts data)
               = rev (filter (\<lambda>p. p_complexity p = k) data)))
   \<and> ((\<forall>p\<in>set data. p_complexity p \<noteq> None) \<and> distinct (map p_complexity data) \<longrightarrow>
        (if o_direction opts = Some DIRECTION_ASC
         then sorted_wrt (\<lambda>a b. complexity_greater b a) (sortPullsByComplexity opts data)
         else sorted_wrt complexity_greater (sortPullsByComplexity opts data)))"
proof -
  have perm: "mset (sortPullsByComplexity opts data) = mset data"
    by (simp add: sortPullsByComplexity_def Let_def mset_array_sort)
  have asc_desc: "sortPullsByComplexity (opts\<lparr>o_direction := Some DIRECTION_ASC\<rparr>) data
       = rev (sortPullsByComplexity (opts\<lparr>o_direction := Some DIRECTION_DESC\<rparr>) data)"
    by (simp add: sortPullsByComplexity_def Let_def DIRECTION_ASC_def DIRECTION_DESC_def)
  have ties_desc: "filter (\<lambda>p. p_complexity p = k) (sortPullsByComplexity opts data)
               = filter (\<lambda>p. p_complexity p = k) data"
    if "o_direction opts \<noteq> Some DIRECTION_ASC" for k
    using that by (simp add: sortPullsByComplexity_def Let_def filter_array_sort)
  have ties_asc: "filter (\<lambda>p. p_complexity p = k) (sortPullsByComplexity opts data)
               = rev (filter (\<lambda>p. p_complexity p = k) data)"
    if "o_direction opts = Some DIRECTION_ASC" for k
    using that by (simp add: sortPullsByComplexity_def Let_def filter_array_sort rev_filter [symmetric])
  have strict: "if o_direction opts = Some DIRECTION_ASC
         then sorted_wrt (\<lambda>a b. complexity_greater b a) (sortPullsByComplexity opts data)
         else sorted_wrt complexity_greater (sortPullsByComplexity opts data)"
    if "\<forall>p\<in>set data. p_complexity p \<noteq> None" and "distinct (map p_complexity data)"
    using strictly_sorted_array_sort [OF that]
    by (simp add: sortPullsByComplexity_def Let_def sorted_wrt_rev)
  from perm asc_desc ties_desc ties_asc strict show ?thesis
    by blast
qed

theorem sortPullsByComplexity_order_witness:
  "sortPullsByComplexity example_options
     [example_pull 1 (Some 10), example_pull 2 (Some 50), example_pull 3 (Some 30)]
   = [example_pull 2 (Some 50), example_pull 3 (Some 30), example_pull 1 (Some 10)]
   \<and> sorted_wrt complexity_greater
       (sortPullsByComplexity example_options
          [example_pull 1 (Some 10), example_pull 2 (Some 50), example_pull 3 (Some 30)])
   \<and> sortPullsByComplexity (example_options\<lparr>o_direction := Some DIRECTION_ASC\<rparr>)
       [example_pull 1 (Some 10), example_pull 2 (Some 50), example_pull 3 (Some 30)]
     = [example_pull 1 (Some 10), example_pull 3 (Some 30), example_pull 2 (Some 50)]"
proof -
  let ?data = "[example_pull 1 (Some 10), example_pull 2 (Some 50), example_pull 3 (Some 30)]"
  have desc: "sortPullsByComplexity (example_options\<lparr>o_direction := Some DIRECTION_DESC\<rparr>) ?data
      = [example_pull 2 (Some 50), example_pull 3 (Some 30), example_pull 1 (Some 10)]"
    by (simp add: sortPullsByComplexity_def array_sort_def compareComplexity_def
        complexity_greater_def example_defs DIRECTION_ASC_def DIRECTION_DESC_def)
  have none: "sortPullsByComplexity example_options ?data
      = [example_pull 2 (Some 50), example_pull 3 (Some 30), example_pull 1 (Some 10)]"
    by (simp add: sortPullsByComplexity_def array_sort_def compareComplexity_def
        complexity_greater_def example_defs DIRECTION_ASC_def)
  have defined: "\<forall>p\<in>set ?data. p_complexity p \<noteq> None"
    by (simp add: example_defs)
  have different: "distinct (map p_complexity ?data)"
    by (simp add: example_defs)
  have dir: "o_direction example_options \<noteq> Some DIRECTION_ASC"
    by (simp add: example_defs)
  from sortPullsByComplexity_order [of example_options ?data] defined different dir
  have "sorted_wrt complexity_greater (sortPullsByComplexity example_options ?data)"
    by simp
  moreover from sortPullsByComplexity_order [of example_options ?data] desc
  have "sortPullsByComplexity (example_options\<lparr>o_direction := Some DIRECTION_ASC\<rparr>) ?data
     = [example_pull 1 (Some 10), example_pull 3 (Some 30), example_pull 2 (Some 50)]"
    by simp
  ultimately show ?thesis
    using none by simp
qed

section \<open>Properties of submitting\<close>


lemma integrity_match_title [simp]:
  "integrity_match (opts\<lparr>o_title := t\<rparr>) user = integrity_match opts user"
  by (rule ext) (simp add: integrity_match_def)




section \<open>Properties of the command\<close>

text \<open>
  The test of \<^verbatim>\<open>run\<close> for a missing number reads three flags. When no number was given
  (the number in the options is falsy) and the current branch decodes to none, and close,
  fetch or merge is asked for, \<^verbatim>\<open>run\<close> ends in the fatal error, with nothing dispatched:
  the test comes before the first handler.
\<close>

lemma run_missing_number_fatal:
  assumes "\<not> truthy (o_number opts)"
    and "\<not> truthy_str (getPullRequestNumberFromBranch (o_currentBranch opts)
                        (pull_branch_name_prefix cfg))"
    and "o_close opts \<or> o_fetch opts \<or> o_merge opts"
  shows "run cfg opts = Fatal ''You've invoked a method that requires an issue number.''"
proof -
  have "\<not> truthy (jsval_of_str (getPullRequestNumberFromBranch (o_currentBranch opts)
                        (pull_branch_name_prefix cfg)))"
    using assms(2)
    by (cases "getPullRequestNumberFromBranch (o_currentBranch opts)
                        (pull_branch_name_prefix cfg)") (simp_all add: jsval_of_str_def)
  with assms(1) have "\<not> truthy (js_or (o_number opts)
      (jsval_of_str (getPullRequestNumberFromBranch (o_currentBranch opts)
                        (pull_branch_name_prefix cfg))))"
    by (simp add: js_or_def)
  then show ?thesis
    using assms(3)
    by (simp add: run_def Let_def getBranchNameFromPullNumber_def logger_error_def)
qed

lemma run_missing_number_fatal_example:
  "run example_config (example_options\<lparr>o_fetch := True, o_currentBranch := Some ''master''\<rparr>)
     = Fatal ''You've invoked a method that requires an issue number.''
   \<and> run example_config (example_options\<lparr>o_merge := True, o_currentBranch := Some ''master''\<rparr>)
     = Fatal ''You've invoked a method that requires an issue number.''"
  using run_missing_number_fatal [of "example_options\<lparr>o_fetch := True,
      o_currentBranch := Some ''master''\<rparr>" example_config]
    run_missing_number_fatal [of "example_options\<lparr>o_merge := True,
      o_currentBranch := Some ''master''\<rparr>" example_config]
  by (simp add: example_defs getPullRequestNumberFromBranch_def)

text \<open>
  Claim C6 says that with no number resolved every handler that needs one (close, fetch,
  merge) is aborted before dispatch. The code does not do so for the merge handler when it
  is reached by a rebase alone: the test reads the flags close, fetch and merge, not
  rebase, while the dispatch starts the merge handler for merge or rebase. With the rebase
  flag alone, no number given and the current branch \<^verbatim>\<open>master\<close> (which decodes to none
  under the prefix \<^verbatim>\<open>pr-\<close>), no number and no pull branch are resolved, \<^verbatim>\<open>run\<close> does not
  end in the fatal error, and the merge handler is dispatched.
\<close>

theorem run_rebase_without_number:
  "\<not> truthy (o_number (example_options\<lparr>o_rebase := True, o_currentBranch := Some ''master''\<rparr>))
   \<and> getPullRequestNumberFromBranch
        (o_currentBranch (example_options\<lparr>o_rebase := True, o_currentBranch := Some ''master''\<rparr>))
        (pull_branch_name_prefix example_config) = None
   \<and> run example_config (example_options\<lparr>o_rebase := True, o_currentBranch := Some ''master''\<rparr>)
     = Dispatched
         (example_options\<lparr>o_rebase := True, o_currentBranch := Some ''master'',
            o_state := Some ''open'', o_branch := Some ''master''\<rparr>)
         [MergeHandler]
   \<and> o_number (example_options\<lparr>o_rebase := True, o_currentBranch := Some ''master'',
            o_state := Some ''open'', o_branch := Some ''master''\<rparr>) = Undefined
   \<and> o_pullBranch (example_options\<lparr>o_rebase := True, o_currentBranch := Some ''master'',
            o_state := Some ''open'', o_branch := Some ''master''\<rparr>) = None
   \<and> run example_config (example_options\<lparr>o_rebase := True, o_currentBranch := Some ''master''\<rparr>)
     \<noteq> Fatal ''You've invoked a method that requires an issue number.''"
  by (simp add: run_def Let_def js_or_def jsval_of_str_def str_or_def when_action_def
      getPullRequestNumberFromBranch_def getBranchNameFromPullNumber_def STATE_OPEN_def
      example_defs)

text \<open>
  Claim C9: when the request for the pull request fails, \<^verbatim>\<open>fetch\<close> hands the error to the
  callback and calls \<^verbatim>\<open>git\<close> not at all. When it succeeds, the head branch is fetched from
  the head repository into the pull branch, followed by exactly one of checkout, merge
  and rebase of the pull branch, as the fetch type says, and by nothing for the silent type.
\<close>

theorem fetch_pipeline:
  "(\<forall>err. pullRequests_get gh \<lparr>g_number = o_number (w_options w), g_repo = o_repo (w_options w),
                 g_user = o_user (w_options w)\<rparr> = Inl err \<longrightarrow>
      fetch gh opt_type w =
        (w\<lparr>w_trace := w_trace w @ [Request (Req_get \<lparr>g_number = o_number (w_options w),
               g_repo = o_repo (w_options w), g_user = o_user (w_options w)\<rparr>)]\<rparr>, Inl err))
   \<and> (\<forall>pull. pullRequests_get gh \<lparr>g_number = o_number (w_options w), g_repo = o_repo (w_options w),
                 g_user = o_user (w_options w)\<rparr> = Inr pull \<longrightarrow>
      fetch gh opt_type w =
        (w\<lparr>w_trace := w_trace w
             @ [Request (Req_get \<lparr>g_number = o_number (w_options w),
                   g_repo = o_repo (w_options w), g_user = o_user (w_options w)\<rparr>),
                Git (Git_fetch (p_head_repo_ssh_url pull) (p_head_ref pull)
                       (o_pullBranch (w_options w)))]
             @ (case opt_type of
                  FETCH_TYPE_CHECKOUT \<Rightarrow> [Git (Git_checkout (o_pullBranch (w_options w)))]
                | FETCH_TYPE_MERGE \<Rightarrow> [Git (Git_merge (o_pullBranch (w_options w)))]
                | FETCH_TYPE_REBASE \<Rightarrow> [Git (Git_rebase (o_pullBranch (w_options w)))]
                | FETCH_TYPE_SILENT \<Rightarrow> [])\<rparr>,
         Inr pull))"
  by (cases opt_type) (simp_all add: fetch_def getPullRequest_def emit_def Let_def)

theorem fetch_pipeline_witness:
  "fetch example_remote FETCH_TYPE_CHECKOUT
     (example_world (example_options\<lparr>o_number := Num 7, o_pullBranch := Some ''pr-7''\<rparr>))
   = ((example_world (example_options\<lparr>o_number := Num 7, o_pullBranch := Some ''pr-7''\<rparr>))
        \<lparr>w_trace := [Request (Req_get \<lparr>g_number = Num 7, g_repo = None, g_user = None\<rparr>),
                    Git (Git_fetch ''git@host:alice/repo.git'' ''feature'' (Some ''pr-7'')),
                    Git (Git_checkout (Some ''pr-7''))]\<rparr>,
      Inr (example_detail 7))
   \<and> fetch example_remote FETCH_TYPE_CHECKOUT
     (example_world (example_options\<lparr>o_number := Str ''x'', o_pullBranch := Some ''pr-x''\<rparr>))
   = ((example_world (example_options\<lparr>o_number := Str ''x'', o_pullBranch := Some ''pr-x''\<rparr>))
        \<lparr>w_trace := [Request (Req_get \<lparr>g_number = Str ''x'', g_repo = None, g_user = None\<rparr>)]\<rparr>,
      Inl (ApiError 404 ''Not Found''))"
proof -
  let ?w = "example_world (example_options\<lparr>o_number := Num 7, o_pullBranch := Some ''pr-7''\<rparr>)"
  let ?v = "example_world (example_options\<lparr>o_number := Str ''x'', o_pullBranch := Some ''pr-x''\<rparr>)"
  have ok: "pullRequests_get example_remote \<lparr>g_number = o_number (w_options ?w),
      g_repo = o_repo (w_options ?w), g_user = o_user (w_options ?w)\<rparr> = Inr (example_detail 7)"
    by (simp add: example_defs)
  have bad: "pullRequests_get example_remote \<lparr>g_number = o_number (w_options ?v),
      g_repo = o_repo (w_options ?v), g_user = o_user (w_options ?v)\<rparr>
      = Inl (ApiError 404 ''Not Found'')"
    by (simp add: example_defs)
  from fetch_pipeline [of example_remote ?w FETCH_TYPE_CHECKOUT] ok
  have "fetch example_remote FETCH_TYPE_CHECKOUT ?w =
        (?w\<lparr>w_trace := w_trace ?w
             @ [Request (Req_get \<lparr>g_number = o_number (w_options ?w),
                   g_repo = o_repo (w_options ?w), g_user = o_user (w_options ?w)\<rparr>),
                Git (Git_fetch (p_head_repo_ssh_url (example_detail 7)) (p_head_ref (example_detail 7))
                       (o_pullBranch (w_options ?w)))]
             @ [Git (Git_checkout (o_pullBranch (w_options ?w)))]\<rparr>,
         Inr (example_detail 7))"
    by simp
  moreover from fetch_pipeline [of example_remote ?v FETCH_TYPE_CHECKOUT] bad
  have "fetch example_remote FETCH_TYPE_CHECKOUT ?v =
        (?v\<lparr>w_trace := w_trace ?v @ [Request (Req_get \<lparr>g_number = o_number (w_options ?v),
               g_repo = o_repo (w_options ?v), g_user = o_user (w_options ?v)\<rparr>)]\<rparr>,
         Inl (ApiError 404 ''Not Found''))"
    by blast
  ultimately show ?thesis
    by (simp add: example_defs)
qed

section \<open>Properties of listing\<close>

lemma same_but_number_refl [simp]: "same_but_number w w"
  by (simp add: same_but_number_def)

lemma same_but_number_sym: "same_but_number w w' \<Longrightarrow> same_but_number w' w"
  by (simp add: same_but_number_def)

lemma same_but_number_trans:
  "same_but_number w w' \<Longrightarrow> same_but_number w' w'' \<Longrightarrow> same_but_number w w''"
  by (simp add: same_but_number_def)

lemma same_but_number_emit [simp]:
  "same_but_number (emit e w) w' = same_but_number w w'"
  "same_but_number w (emit e w') = same_but_number w w'"
  by (simp_all add: same_but_number_def emit_def)

lemma same_but_number_fields:
  assumes "same_but_number w w'"
  shows "o_me (w_options w) = o_me (w_options w')"
    and "o_loggedUser (w_options w) = o_loggedUser (w_options w')"
    and "o_sort (w_options w) = o_sort (w_options w')"
    and "o_direction (w_options w) = o_direction (w_options w')"
    and "o_branch (w_options w) = o_branch (w_options w')"
    and "o_repo (w_options w) = o_repo (w_options w')"
    and "o_user (w_options w) = o_user (w_options w')"
    and "o_state (w_options w) = o_state (w_options w')"
proof -
  from assms have e: "(w_options w)\<lparr>o_number := Undefined\<rparr> = (w_options w')\<lparr>o_number := Undefined\<rparr>"
    by (simp add: same_but_number_def)
  from arg_cong [OF e, of o_me] show "o_me (w_options w) = o_me (w_options w')" by simp
  from arg_cong [OF e, of o_loggedUser]
  show "o_loggedUser (w_options w) = o_loggedUser (w_options w')" by simp
  from arg_cong [OF e, of o_sort] show "o_sort (w_options w) = o_sort (w_options w')" by simp
  from arg_cong [OF e, of o_direction]
  show "o_direction (w_options w) = o_direction (w_options w')" by simp
  from arg_cong [OF e, of o_branch] show "o_branch (w_options w) = o_branch (w_options w')" by simp
  from arg_cong [OF e, of o_repo] show "o_repo (w_options w) = o_repo (w_options w')" by simp
  from arg_cong [OF e, of o_user] show "o_user (w_options w) = o_user (w_options w')" by simp
  from arg_cong [OF e, of o_state] show "o_state (w_options w) = o_state (w_options w')" by simp
qed

lemma same_but_number_update:
  assumes "same_but_number w w'"
  shows "(w_options w)\<lparr>o_number := n\<rparr> = (w_options w')\<lparr>o_number := n\<rparr>"
proof -
  from assms have e: "(w_options w)\<lparr>o_number := Undefined\<rparr> = (w_options w')\<lparr>o_number := Undefined\<rparr>"
    by (simp add: same_but_number_def)
  from arg_cong [OF e, of "\<lambda>r. r\<lparr>o_number := n\<rparr>"] show ?thesis by simp
qed

lemma same_but_number_options:
  assumes "same_but_number w w'"
  shows "w_options w' = (w_options w)\<lparr>o_number := o_number (w_options w')\<rparr>"
  using same_but_number_update [OF assms, of "o_number (w_options w')"] by simp

lemma addComplexity_Cons:
  "addComplexityParamToPulls gh w (pull # rest) =
     (case pullRequests_get gh (detail_payload w pull) of
        Inl err \<Rightarrow> (detail_world w pull, Some err, [pull])
      | Inr pull2 \<Rightarrow>
          (fst (addComplexityParamToPulls gh (detail_world w pull) rest),
           fst (snd (addComplexityParamToPulls gh (detail_world w pull) rest)),
           with_complexity pull pull2
             # snd (snd (addComplexityParamToPulls gh (detail_world w pull) rest))))"
  by (simp add: getPullRequest_def Let_def emit_def detail_payload_def detail_world_def
      with_complexity_def split: prod.splits sum.splits)

lemma detail_same:
  assumes "same_but_number w w'"
  shows "detail_payload w pull = detail_payload w' pull"
    and "same_but_number (detail_world w pull) (detail_world w' pull)"
  using same_but_number_fields [OF assms] same_but_number_update [OF assms]
  by (simp_all add: detail_payload_def detail_world_def same_but_number_def emit_def)

lemma addComplexity_same:
  "same_but_number w w' \<Longrightarrow>
   snd (addComplexityParamToPulls gh w pulls) = snd (addComplexityParamToPulls gh w' pulls)
   \<and> same_but_number (fst (addComplexityParamToPulls gh w pulls))
        (fst (addComplexityParamToPulls gh w' pulls))"
proof (induction pulls arbitrary: w w')
  case Nil
  then show ?case by simp
next
  case (Cons pull rest)
  note d = detail_same [OF Cons.prems, of pull]
  from Cons.IH [OF d(2)] show ?case
    by (simp only: addComplexity_Cons d(1)) (simp add: d(2) split: sum.splits)
qed

lemma list_payload_same:
  "same_but_number w w' \<Longrightarrow>
   list_payload (w_options w) user repo = list_payload (w_options w') user repo"
  using same_but_number_fields [of w w'] by (simp add: list_payload_def)

lemma list_getAll_options [simp]:
  "w_options (fst (list_getAll gh user payload w)) = w_options w"
  by (simp add: list_getAll_def Let_def emit_def split: sum.splits)

lemma list_getAll_same:
  "same_but_number w w' \<Longrightarrow>
   snd (list_getAll gh user payload w) = snd (list_getAll gh user payload w')"
  using same_but_number_fields [of w w']
  by (simp add: list_getAll_def Let_def emit_def filterPullsSentByMe_def split: sum.splits)

lemma list_complexity_same:
  assumes "same_but_number w w'"
  shows "snd (list_complexity gh w pulls) = snd (list_complexity gh w' pulls)"
    and "same_but_number (fst (list_complexity gh w pulls)) (fst (list_complexity gh w' pulls))"
proof -
  note f = same_but_number_fields [OF assms]
  note a = addComplexity_same [OF assms, of gh pulls]
  obtain w1 e1 d1 where r: "addComplexityParamToPulls gh w pulls = (w1, e1, d1)"
    by (cases "addComplexityParamToPulls gh w pulls") auto
  obtain w1' e1' d1' where r': "addComplexityParamToPulls gh w' pulls = (w1', e1', d1')"
    by (cases "addComplexityParamToPulls gh w' pulls") auto
  from a r r' have eq: "e1' = e1" "d1' = d1" "same_but_number w1 w1'"
    by simp_all
  from same_but_number_fields(4) [OF eq(3)]
  have dir: "sortPullsByComplexity (w_options w1) d1 = sortPullsByComplexity (w_options w1') d1"
    by (simp add: sortPullsByComplexity_def)
  show "snd (list_complexity gh w pulls) = snd (list_complexity gh w' pulls)"
    using f(3) r r' eq dir assms
    by (simp add: list_complexity_def split: option.splits)
  show "same_but_number (fst (list_complexity gh w pulls)) (fst (list_complexity gh w' pulls))"
    using f(3) r r' eq assms
    by (simp add: list_complexity_def split: option.splits)
qed

lemma list_statuses_Cons:
  "list_statuses gh user repo w (pull # rest) =
     (case statuses_getCombined gh \<lparr>s_repo = repo, s_user = user, s_sha = p_head_sha pull\<rparr> of
        Inl err \<Rightarrow>
          (emit (Request (Req_getCombined
                   \<lparr>s_repo = repo, s_user = user, s_sha = p_head_sha pull\<rparr>)) w, None)
      | Inr st \<Rightarrow>
          (fst (list_statuses gh user repo
                 (emit (Request (Req_getCombined
                    \<lparr>s_repo = repo, s_user = user, s_sha = p_head_sha pull\<rparr>)) w) rest),
           map_option (\<lambda>rest'. pull\<lparr>p_combinedStatus := Some st\<rparr> # rest')
             (snd (list_statuses gh user repo
                 (emit (Request (Req_getCombined
                    \<lparr>s_repo = repo, s_user = user, s_sha = p_head_sha pull\<rparr>)) w) rest))))"
  by (simp add: Let_def split: sum.splits prod.splits option.splits)

lemma list_statuses_options [simp]:
  "w_options (fst (list_statuses gh user repo w pulls)) = w_options w"
proof (induction pulls arbitrary: w)
  case Nil
  show ?case by simp
next
  case (Cons pull rest)
  show ?case
    by (simp only: list_statuses_Cons) (simp add: Cons emit_def split: sum.splits)
qed

lemma list_statuses_same:
  "snd (list_statuses gh user repo w pulls) = snd (list_statuses gh user repo w' pulls)"
proof (induction pulls arbitrary: w w')
  case Nil
  show ?case by simp
next
  case (Cons pull rest)
  let ?payload = "\<lparr>s_repo = repo, s_user = user, s_sha = p_head_sha pull\<rparr>"
  from Cons [of "emit (Request (Req_getCombined ?payload)) w"
      "emit (Request (Req_getCombined ?payload)) w'"]
  show ?case
    by (simp only: list_statuses_Cons) (simp split: sum.splits)
qed

lemma list_pulls_same:
  assumes "same_but_number w w'"
  shows "snd (list_pulls gh user repo w) = snd (list_pulls gh user repo w')"
    and "same_but_number (fst (list_pulls gh user repo w)) (fst (list_pulls gh user repo w'))"
proof -
  let ?payload = "list_payload (w_options w) user repo"
  have p: "list_payload (w_options w') user repo = ?payload"
    using list_payload_same [OF assms] by simp
  obtain w1 e1 ps1 where g: "list_getAll gh user ?payload w = (w1, e1, ps1)"
    by (cases "list_getAll gh user ?payload w") auto
  obtain w1' e1' ps1' where g': "list_getAll gh user ?payload w' = (w1', e1', ps1')"
    by (cases "list_getAll gh user ?payload w'") auto
  from list_getAll_same [OF assms, of gh user ?payload] g g'
  have eq1: "e1' = e1" "ps1' = ps1" by simp_all
  from list_getAll_options [of gh user ?payload w] list_getAll_options [of gh user ?payload w'] g g' assms
  have s1: "same_but_number w1 w1'"
    by (simp add: same_but_number_def)
  obtain w2 e2 ps2 where c: "list_complexity gh w1 ps1 = (w2, e2, ps2)"
    by (cases "list_complexity gh w1 ps1") auto
  obtain w2' e2' ps2' where c': "list_complexity gh w1' ps1 = (w2', e2', ps2')"
    by (cases "list_complexity gh w1' ps1") auto
  from list_complexity_same [OF s1, of gh ps1] c c'
  have eq2: "e2' = e2" "ps2' = ps2" and s2: "same_but_number w2 w2'"
    by simp_all
  obtain w3 r3 where s: "list_statuses gh user repo w2 ps2 = (w3, r3)"
    by (cases "list_statuses gh user repo w2 ps2") auto
  obtain w3' r3' where s': "list_statuses gh user repo w2' ps2 = (w3', r3')"
    by (cases "list_statuses gh user repo w2' ps2") auto
  from list_statuses_same [of gh user repo w2 ps2 w2'] s s'
  have eq3: "r3' = r3" by simp
  from list_statuses_options [of gh user repo w2 ps2] list_statuses_options [of gh user repo w2' ps2]
    s s' s2
  have s3: "same_but_number w3 w3'"
    by (simp add: same_but_number_def)
  from same_but_number_fields(5) [OF s3]
  have json: "getPullsTemplateJson (w_options w3') = getPullsTemplateJson (w_options w3)"
    by (intro ext) (simp add: getPullsTemplateJson_def)
  show "snd (list_pulls gh user repo w) = snd (list_pulls gh user repo w')"
    by (simp add: list_pulls_def p g g' eq1 c c' eq2 s s' eq3 json Let_def
        split: option.splits)
  show "same_but_number (fst (list_pulls gh user repo w)) (fst (list_pulls gh user repo w'))"
    using s1 s2 s3
    by (simp add: list_pulls_def p g g' eq1 c c' eq2 s s' eq3 json Let_def
        split: option.splits)
qed

lemma detail_world_frame: "same_but_number w (detail_world w pull)"
  by (simp add: detail_world_def same_but_number_def emit_def)

lemma addComplexity_frame: "same_but_number w (fst (addComplexityParamToPulls gh w pulls))"
proof (induction pulls arbitrary: w)
  case Nil
  show ?case by simp
next
  case (Cons pull rest)
  from same_but_number_trans [OF detail_world_frame Cons [of "detail_world w pull"]]
  show ?case
    by (simp only: addComplexity_Cons) (simp add: detail_world_frame split: sum.splits)
qed

lemma list_complexity_frame: "same_but_number w (fst (list_complexity gh w pulls))"
  using addComplexity_frame [of w gh pulls]
  by (auto simp: list_complexity_def split: prod.splits option.splits)

lemma list_pulls_frame: "same_but_number w (fst (list_pulls gh user repo w))"
proof -
  let ?payload = "list_payload (w_options w) user repo"
  obtain w1 e1 ps1 where g: "list_getAll gh user ?payload w = (w1, e1, ps1)"
    by (cases "list_getAll gh user ?payload w") auto
  from list_getAll_options [of gh user ?payload w] g
  have s1: "same_but_number w w1"
    by (simp add: same_but_number_def)
  obtain w2 e2 ps2 where c: "list_complexity gh w1 ps1 = (w2, e2, ps2)"
    by (cases "list_complexity gh w1 ps1") auto
  from list_complexity_frame [of w1 gh ps1] c
  have s2: "same_but_number w w2"
    using s1 by (auto intro: same_but_number_trans)
  obtain w3 r3 where s: "list_statuses gh user repo w2 ps2 = (w3, r3)"
    by (cases "list_statuses gh user repo w2 ps2") auto
  from list_statuses_options [of gh user repo w2 ps2] s s2
  have s3: "same_but_number w w3"
    by (simp add: same_but_number_def)
  show ?thesis
    using s1 s2 s3
    by (simp add: list_pulls_def g c s Let_def split: option.splits)
qed

lemma list_each_Cons:
  "list_each gh w (repository # rest) =
     (if snd (list_pulls gh (Some (r_owner_login repository)) (Some (r_name repository)) w)
          = List_threw
      then (fst (list_pulls gh (Some (r_owner_login repository)) (Some (r_name repository)) w),
            [List_threw])
      else (fst (list_each gh
                   (fst (list_pulls gh (Some (r_owner_login repository))
                           (Some (r_name repository)) w)) rest),
            snd (list_pulls gh (Some (r_owner_login repository)) (Some (r_name repository)) w)
              # snd (list_each gh
                   (fst (list_pulls gh (Some (r_owner_login repository))
                           (Some (r_name repository)) w)) rest)))"
  by (simp split: prod.splits list_outcome.splits)

lemma list_each_same:
  "same_but_number w w' \<Longrightarrow> snd (list_each gh w repos) = snd (list_each gh w' repos)"
proof (induction repos arbitrary: w w')
  case Nil
  show ?case by simp
next
  case (Cons repository rest)
  note l = list_pulls_same [OF Cons.prems, of gh "Some (r_owner_login repository)"
      "Some (r_name repository)"]
  from Cons.IH [OF l(2)] show ?case
    by (simp only: list_each_Cons l(1)) simp
qed

lemma list_each_frame: "same_but_number w (fst (list_each gh w repos))"
proof (induction repos arbitrary: w)
  case Nil
  show ?case by simp
next
  case (Cons repository rest)
  note f = list_pulls_frame [of w gh "Some (r_owner_login repository)" "Some (r_name repository)"]
  from same_but_number_trans [OF f Cons] f show ?case
    by (simp only: list_each_Cons) simp
qed

lemma list_each_append:
  "List_threw \<notin> set (snd (list_each gh w before)) \<Longrightarrow>
   snd (list_each gh w (before @ after)) =
     snd (list_each gh w before) @ snd (list_each gh w after)"
proof (induction before arbitrary: w)
  case Nil
  show ?case by simp
next
  case (Cons repository rest)
  let ?w1 = "fst (list_pulls gh (Some (r_owner_login repository)) (Some (r_name repository)) w)"
  from Cons.prems have nt:
    "snd (list_pulls gh (Some (r_owner_login repository)) (Some (r_name repository)) w)
       \<noteq> List_threw"
    by (simp only: list_each_Cons) (auto split: if_splits)
  with Cons.prems have "List_threw \<notin> set (snd (list_each gh ?w1 rest))"
    by (simp only: list_each_Cons) (auto split: if_splits)
  from Cons.IH [OF this]
  have "snd (list_each gh ?w1 (rest @ after)) =
          snd (list_each gh ?w1 rest) @ snd (list_each gh ?w1 after)" .
  moreover have "snd (list_each gh ?w1 after) = snd (list_each gh w after)"
    by (rule list_each_same [OF same_but_number_sym [OF list_pulls_frame]])
  ultimately show ?case
    using nt by (simp only: append_Cons list_each_Cons) simp
qed

lemma getPullsTemplateJson_Nil [simp]: "getPullsTemplateJson opts [] = []"
  by (simp add: getPullsTemplateJson_def)

lemma sortPullsByComplexity_Nil [simp]: "sortPullsByComplexity opts [] = []"
  by (simp add: sortPullsByComplexity_def array_sort_def)

lemma list_pulls_not_found:
  assumes "pullRequests_getAll gh (list_payload (w_options w) user repo) = Inl err"
    and "code err = 404"
  shows "list_pulls gh user repo w =
     (w\<lparr>w_trace := w_trace w @
          [Request (Req_getAll (list_payload (w_options w) user repo)),
           Warn (''Can't list pull requests for '' @ str_text user @ ''/'' @ str_text repo)]\<rparr>,
      Listed [] [])"
  using assms
  by (simp add: list_pulls_def list_getAll_def list_complexity_def Let_def emit_def
      list_payload_def)

text \<open>
  Claim C7: when the listing request of a repository fails with the code 404, the listing
  of that repository warns, hands no error to the callback and lists nothing. In a
  listing of all repositories, such a repository contributes this empty listing, and the
  repositories before and after it are listed as they are without it. (A listing that
  throws ends the process; the repositories before are assumed not to.)
\<close>

theorem listing_not_found:
  assumes "pullRequests_getAll gh (list_payload (w_options w) user repo) = Inl err"
    and "code err = 404"
  shows "list_pulls gh user repo w =
     (w\<lparr>w_trace := w_trace w @
          [Request (Req_getAll (list_payload (w_options w) user repo)),
           Warn (''Can't list pull requests for '' @ str_text user @ ''/'' @ str_text repo)]\<rparr>,
      Listed [] [])
   \<and> (\<forall>before after repository.
         snd (all_repositories gh (w_options w)) = Inr (before @ repository # after)
         \<and> user = Some (r_owner_login repository) \<and> repo = Some (r_name repository)
         \<and> List_threw \<notin> set (snd (list_each gh w before))
         \<longrightarrow> snd (listFromAllRepositories gh w) =
               snd (list_each gh w before) @ Listed [] [] # snd (list_each gh w after))"
proof -
  note nf = list_pulls_not_found [OF assms]
  have "snd (listFromAllRepositories gh w) =
               snd (list_each gh w before) @ Listed [] [] # snd (list_each gh w after)"
    if r: "snd (all_repositories gh (w_options w)) = Inr (before @ repository # after)"
      and u: "user = Some (r_owner_login repository)" "repo = Some (r_name repository)"
      and nt: "List_threw \<notin> set (snd (list_each gh w before))"
    for before after repository
  proof -
    obtain req where a: "all_repositories gh (w_options w) = (req, Inr (before @ repository # after))"
      using r by (cases "all_repositories gh (w_options w)") auto
    let ?w0 = "emit (Request req) w"
    have s0: "same_but_number ?w0 w"
      by simp
    have "snd (listFromAllRepositories gh w) = snd (list_each gh ?w0 (before @ repository # after))"
      by (simp add: listFromAllRepositories_def a)
    also have "\<dots> = snd (list_each gh w (before @ repository # after))"
      by (rule list_each_same [OF s0])
    also have "\<dots> = snd (list_each gh w before) @ snd (list_each gh w (repository # after))"
      by (rule list_each_append [OF nt])
    also have "snd (list_each gh w (repository # after)) =
        Listed [] [] # snd (list_each gh (fst (list_pulls gh user repo w)) after)"
      by (simp only: list_each_Cons u [symmetric]) (simp add: nf)
    also have "snd (list_each gh (fst (list_pulls gh user repo w)) after)
        = snd (list_each gh w after)"
      by (rule list_each_same [OF same_but_number_sym [OF list_pulls_frame]])
    finally show ?thesis .
  qed
  with nf show ?thesis
    by blast
qed

theorem listing_not_found_witness:
  "list_pulls example_remote (Some ''alice'') (Some ''disabled'') (example_world example_options)
     = ((example_world example_options)
          \<lparr>w_trace := [Request (Req_getAll \<lparr>ga_direction = None, ga_repo = Some ''disabled'',
                           ga_sort = None, ga_state = None, ga_user = Some ''alice''\<rparr>),
                      Warn ''Can't list pull requests for alice/disabled'']\<rparr>,
        Listed [] [])
   \<and> snd (listFromAllRepositories example_remote (example_world example_options))
     = snd (list_pulls example_remote (Some ''alice'') (Some ''one'') (example_world example_options))
       # Listed [] []
       # [snd (list_pulls example_remote (Some ''alice'') (Some ''two'')
                 (example_world example_options))]
   \<and> snd (list_pulls example_remote (Some ''alice'') (Some ''two'') (example_world example_options))
     = Listed example_unsorted
         [\<lparr>bg_name = ''master'', bg_pulls = example_unsorted, bg_total = 2\<rparr>]"
proof -
  let ?w = "example_world example_options"
  let ?one = "\<lparr>r_owner_login = ''alice'', r_name = ''one''\<rparr>"
  let ?disabled = "\<lparr>r_owner_login = ''alice'', r_name = ''disabled''\<rparr>"
  let ?two = "\<lparr>r_owner_login = ''alice'', r_name = ''two''\<rparr>"
  have nf: "pullRequests_getAll example_remote
      (list_payload (w_options ?w) (Some ''alice'') (Some ''disabled''))
      = Inl (ApiError 404 ''Not Found'')"
    by (simp add: list_payload_def example_defs)
  have c: "code (ApiError 404 ''Not Found'') = 404"
    by simp
  have repos: "snd (all_repositories example_remote (w_options ?w)) = Inr ([?one] @ ?disabled # [?two])"
    by (simp add: all_repositories_def example_defs)
  have two: "snd (list_pulls example_remote (Some ''alice'') (Some ''two'') ?w)
     = Listed example_unsorted
         [\<lparr>bg_name = ''master'', bg_pulls = example_unsorted, bg_total = 2\<rparr>]"
    by (simp add: list_pulls_def list_getAll_def list_complexity_def list_payload_def
      getPullsTemplateJson_def emit_def Let_def example_defs example_unsorted_def
      SORT_COMPLEXITY_def)
  have one: "snd (list_pulls example_remote (Some ''alice'') (Some ''one'') ?w)
     = Listed example_unsorted
         [\<lparr>bg_name = ''master'', bg_pulls = example_unsorted, bg_total = 2\<rparr>]"
    by (simp add: list_pulls_def list_getAll_def list_complexity_def list_payload_def
      getPullsTemplateJson_def emit_def Let_def example_defs example_unsorted_def
      SORT_COMPLEXITY_def)
  have b: "snd (list_each example_remote ?w [?one])
      = [snd (list_pulls example_remote (Some ''alice'') (Some ''one'') ?w)]"
    by (simp only: list_each_Cons) (simp add: one)
  have a: "snd (list_each example_remote ?w [?two])
      = [snd (list_pulls example_remote (Some ''alice'') (Some ''two'') ?w)]"
    by (simp only: list_each_Cons) (simp add: two)
  have nt: "List_threw \<notin> set (snd (list_each example_remote ?w [?one]))"
    by (simp only: b one) simp
  note t = listing_not_found [OF nf c]
  from t have "list_pulls example_remote (Some ''alice'') (Some ''disabled'') ?w
     = (?w\<lparr>w_trace := w_trace ?w @
          [Request (Req_getAll (list_payload (w_options ?w) (Some ''alice'') (Some ''disabled''))),
           Warn (''Can't list pull requests for '' @ str_text (Some ''alice'') @ ''/''
                   @ str_text (Some ''disabled''))]\<rparr>,
        Listed [] [])"
    by blast
  then have first: "list_pulls example_remote (Some ''alice'') (Some ''disabled'') ?w
     = (?w\<lparr>w_trace := [Request (Req_getAll \<lparr>ga_direction = None, ga_repo = Some ''disabled'',
                           ga_sort = None, ga_state = None, ga_user = Some ''alice''\<rparr>),
                      Warn ''Can't list pull requests for alice/disabled'']\<rparr>,
        Listed [] [])"
    by (simp add: list_payload_def example_defs)
  from t have "snd (all_repositories example_remote (w_options ?w))
        = Inr ([?one] @ ?disabled # [?two])
      \<and> Some ''alice'' = Some (r_owner_login ?disabled)
      \<and> Some ''disabled'' = Some (r_name ?disabled)
      \<and> List_threw \<notin> set (snd (list_each example_remote ?w [?one]))
      \<longrightarrow> snd (listFromAllRepositories example_remote ?w) =
          snd (list_each example_remote ?w [?one]) @ Listed [] []
            # snd (list_each example_remote ?w [?two])"
    by blast
  with repos nt
  have "snd (listFromAllRepositories example_remote ?w) =
          snd (list_each example_remote ?w [?one]) @ Listed [] []
            # snd (list_each example_remote ?w [?two])"
    by simp
  with a b first two show ?thesis
    by simp
qed

lemma detail_payload_detail_world [simp]:
  "detail_payload (detail_world w pull) q = detail_payload w q"
  by (simp add: detail_payload_def detail_world_def emit_def)

lemma addComplexity_number:
  "fst (snd (addComplexityParamToPulls gh w pulls)) = None \<Longrightarrow> pulls \<noteq> [] \<Longrightarrow>
   o_number (w_options (fst (addComplexityParamToPulls gh w pulls)))
     = Num (p_number (last pulls))"
proof (induction pulls arbitrary: w)
  case Nil
  then show ?case by simp
next
  case (Cons pull rest)
  from Cons.prems(1) obtain pull2 where
    ok: "pullRequests_get gh (detail_payload w pull) = Inr pull2"
    and rest_ok: "fst (snd (addComplexityParamToPulls gh (detail_world w pull) rest)) = None"
    by (simp only: addComplexity_Cons) (auto split: sum.splits)
  show ?case
  proof (cases "rest = []")
    case True
    then show ?thesis
      by (simp only: addComplexity_Cons ok) (simp add: detail_world_def emit_def)
  next
    case False
    from Cons.IH [OF rest_ok False] False show ?thesis
      by (simp only: addComplexity_Cons ok) simp
  qed
qed

lemma addComplexity_trace:
  "fst (snd (addComplexityParamToPulls gh w pulls)) = None \<Longrightarrow>
   w_trace (fst (addComplexityParamToPulls gh w pulls))
     = w_trace w @ map (\<lambda>p. Request (Req_get (detail_payload w p))) pulls"
proof (induction pulls arbitrary: w)
  case Nil
  then show ?case by simp
next
  case (Cons pull rest)
  from Cons.prems(1) obtain pull2 where
    ok: "pullRequests_get gh (detail_payload w pull) = Inr pull2"
    and rest_ok: "fst (snd (addComplexityParamToPulls gh (detail_world w pull) rest)) = None"
    by (simp only: addComplexity_Cons) (auto split: sum.splits)
  from Cons.IH [OF rest_ok] show ?case
    by (simp only: addComplexity_Cons ok) (simp add: detail_world_def emit_def detail_payload_def)
qed

lemma addComplexity_defined:
  "fst (snd (addComplexityParamToPulls gh w pulls)) = None \<Longrightarrow>
   \<forall>p\<in>set (snd (snd (addComplexityParamToPulls gh w pulls))). p_complexity p \<noteq> None"
proof (induction pulls arbitrary: w)
  case Nil
  then show ?case by simp
next
  case (Cons pull rest)
  from Cons.prems(1) obtain pull2 where
    ok: "pullRequests_get gh (detail_payload w pull) = Inr pull2"
    and rest_ok: "fst (snd (addComplexityParamToPulls gh (detail_world w pull) rest)) = None"
    by (simp only: addComplexity_Cons) (auto split: sum.splits)
  from Cons.IH [OF rest_ok] show ?case
    by (simp only: addComplexity_Cons ok) (simp add: with_complexity_def)
qed

text \<open>
  Claim C10: when every detail request succeeds, the re-fetch sends one detail request
  for each listed pull request, in the order of the listing, each with that pull
  request's number; afterwards the number in the options is the number of the last pull
  request of the listing (in the order the remote returned them, which is the order of the
  re-fetch), and every other field of the options is as before. The same holds for the
  options after the whole listing with the complexity sort.
\<close>

theorem complexity_refetch_overwrites_number:
  assumes "fst (snd (addComplexityParamToPulls gh w pulls)) = None" and "pulls \<noteq> []"
  shows "w_options (fst (addComplexityParamToPulls gh w pulls))
           = (w_options w)\<lparr>o_number := Num (p_number (last pulls))\<rparr>
       \<and> w_trace (fst (addComplexityParamToPulls gh w pulls))
           = w_trace w @ map (\<lambda>p. Request (Req_get \<lparr>g_number = Num (p_number p),
                                 g_repo = o_repo (w_options w), g_user = o_user (w_options w)\<rparr>))
                           pulls
       \<and> (\<forall>user repo w0.
            o_sort (w_options w0) = Some SORT_COMPLEXITY
            \<and> list_getAll gh user (list_payload (w_options w0) user repo) w0 = (w, None, pulls)
            \<longrightarrow> w_options (fst (list_pulls gh user repo w0))
                  = (w_options w0)\<lparr>o_number := Num (p_number (last pulls))\<rparr>)"
proof -
  let ?w' = "fst (addComplexityParamToPulls gh w pulls)"
  have opts: "w_options ?w' = (w_options w)\<lparr>o_number := Num (p_number (last pulls))\<rparr>"
    using same_but_number_options [OF addComplexity_frame [of w gh pulls]]
      addComplexity_number [OF assms]
    by simp
  have tr: "w_trace ?w' = w_trace w @ map (\<lambda>p. Request (Req_get \<lparr>g_number = Num (p_number p),
                                 g_repo = o_repo (w_options w), g_user = o_user (w_options w)\<rparr>))
                           pulls"
    using addComplexity_trace [OF assms(1)] by (simp add: detail_payload_def)
  have "w_options (fst (list_pulls gh user repo w0))
                  = (w_options w0)\<lparr>o_number := Num (p_number (last pulls))\<rparr>"
    if s: "o_sort (w_options w0) = Some SORT_COMPLEXITY"
      and g: "list_getAll gh user (list_payload (w_options w0) user repo) w0 = (w, None, pulls)"
    for user repo w0
  proof -
    from list_getAll_options [of gh user "list_payload (w_options w0) user repo" w0] g
    have w0: "w_options w = w_options w0"
      by simp
    obtain w' d where a: "addComplexityParamToPulls gh w pulls = (w', None, d)"
      using assms(1) by (cases "addComplexityParamToPulls gh w pulls") auto
    then have w': "?w' = w'"
      by simp
    have c: "list_complexity gh w pulls = (w', None, sortPullsByComplexity (w_options w') d)"
      using s w0 a by (simp add: list_complexity_def)
    obtain w3 r3 where
      st: "list_statuses gh user repo w' (sortPullsByComplexity (w_options w') d) = (w3, r3)"
      by (cases "list_statuses gh user repo w' (sortPullsByComplexity (w_options w') d)") auto
    from list_statuses_options [of gh user repo w' "sortPullsByComplexity (w_options w') d"] st
    have w3: "w_options w3 = w_options w'"
      by simp
    have "w_options (fst (list_pulls gh user repo w0)) = w_options w'"
      by (simp add: list_pulls_def g c st w3 Let_def emit_def split: option.splits)
    with opts w0 w' show ?thesis
      by simp
  qed
  with opts tr show ?thesis
    by blast
qed

theorem complexity_refetch_overwrites_number_witness:
  "w_options (fst (list_pulls example_remote (Some ''alice'') (Some ''one'')
        (example_world (example_options\<lparr>o_sort := Some SORT_COMPLEXITY, o_number := Str ''7''\<rparr>))))
     = example_options\<lparr>o_sort := Some SORT_COMPLEXITY, o_number := Num 2\<rparr>"
proof -
  let ?opts = "example_options\<lparr>o_sort := Some SORT_COMPLEXITY, o_number := Str ''7''\<rparr>"
  let ?start = "example_world ?opts"
  let ?payload = "list_payload (w_options ?start) (Some ''alice'') (Some ''one'')"
  let ?w = "emit (Request (Req_getAll ?payload)) ?start"
  let ?pulls = "[example_pull 1 None, example_pull 2 None]"
  have s: "o_sort (w_options ?start) = Some SORT_COMPLEXITY"
    by (simp add: example_defs)
  have g: "list_getAll example_remote (Some ''alice'') ?payload ?start = (?w, None, ?pulls)"
    by (simp add: list_getAll_def list_payload_def Let_def emit_def example_defs)
  have ok: "fst (snd (addComplexityParamToPulls example_remote ?w ?pulls)) = None"
    by (simp add: getPullRequest_def Let_def emit_def example_defs)
  have ne: "?pulls \<noteq> []"
    by simp
  from complexity_refetch_overwrites_number [OF ok ne] s g
  have "w_options (fst (list_pulls example_remote (Some ''alice'') (Some ''one'') ?start))
          = (w_options ?start)\<lparr>o_number := Num (p_number (last ?pulls))\<rparr>"
    by blast
  then show ?thesis
    by (simp add: example_defs)
qed

lemma w_trace_emit [simp]: "w_trace (emit e w) = w_trace w @ [e]"
  by (simp add: emit_def)

lemma w_options_emit [simp]: "w_options (emit e w) = w_options w"
  by (simp add: emit_def)

lemma addComplexity_added:
  "\<exists>ts. w_trace (fst (addComplexityParamToPulls gh w pulls)) = w_trace w @ ts
        \<and> filter is_listing_request ts = []"
proof (induction pulls arbitrary: w)
  case Nil
  show ?case by simp
next
  case (Cons pull rest)
  from Cons [of "detail_world w pull"] obtain ts where
    ts: "w_trace (fst (addComplexityParamToPulls gh (detail_world w pull) rest))
           = w_trace (detail_world w pull) @ ts" "filter is_listing_request ts = []"
    by blast
  have d: "w_trace (detail_world w pull) = w_trace w @ [Request (Req_get (detail_payload w pull))]"
    by (simp add: detail_world_def emit_def)
  show ?case
  proof (cases "pullRequests_get gh (detail_payload w pull)")
    case (Inl err)
    then show ?thesis
      by (simp only: addComplexity_Cons) (simp add: d)
  next
    case (Inr pull2)
    have "w_trace (fst (addComplexityParamToPulls gh w (pull # rest)))
            = w_trace w @ (Request (Req_get (detail_payload w pull)) # ts)"
      by (simp only: addComplexity_Cons Inr) (simp add: ts d)
    moreover have "filter is_listing_request (Request (Req_get (detail_payload w pull)) # ts) = []"
      using ts(2) by simp
    ultimately show ?thesis
      by blast
  qed
qed

lemma list_statuses_added:
  "\<exists>ts. w_trace (fst (list_statuses gh user repo w pulls)) = w_trace w @ ts
        \<and> filter is_listing_request ts = []"
proof (induction pulls arbitrary: w)
  case Nil
  show ?case by simp
next
  case (Cons pull rest)
  let ?e = "Request (Req_getCombined \<lparr>s_repo = repo, s_user = user, s_sha = p_head_sha pull\<rparr>)"
  from Cons [of "emit ?e w"] obtain ts where
    ts: "w_trace (fst (list_statuses gh user repo (emit ?e w) rest)) = w_trace (emit ?e w) @ ts"
      "filter is_listing_request ts = []"
    by blast
  show ?case
  proof (cases "statuses_getCombined gh \<lparr>s_repo = repo, s_user = user, s_sha = p_head_sha pull\<rparr>")
    case (Inl err)
    then show ?thesis
      by (simp only: list_statuses_Cons) simp
  next
    case (Inr st)
    have "w_trace (fst (list_statuses gh user repo w (pull # rest))) = w_trace w @ (?e # ts)"
      by (simp only: list_statuses_Cons Inr) (simp add: ts)
    moreover have "filter is_listing_request (?e # ts) = []"
      using ts(2) by simp
    ultimately show ?thesis
      by blast
  qed
qed

lemma list_getAll_added:
  "\<exists>ts. w_trace (fst (list_getAll gh user payload w))
           = w_trace w @ Request (Req_getAll payload) # ts
        \<and> filter is_listing_request ts = []"
  by (simp add: list_getAll_def Let_def emit_def split: sum.splits)

lemma list_complexity_added:
  "\<exists>ts. w_trace (fst (list_complexity gh w pulls)) = w_trace w @ ts
        \<and> filter is_listing_request ts = []"
  using addComplexity_added [of gh w pulls]
  by (auto simp: list_complexity_def split: prod.splits option.splits)

lemma list_pulls_added:
  "\<exists>ts. w_trace (fst (list_pulls gh user repo w))
           = w_trace w @ Request (Req_getAll (list_payload (w_options w) user repo)) # ts
        \<and> filter is_listing_request ts = []"
proof -
  let ?payload = "list_payload (w_options w) user repo"
  obtain w1 e1 ps1 where g: "list_getAll gh user ?payload w = (w1, e1, ps1)"
    by (cases "list_getAll gh user ?payload w") auto
  from list_getAll_added [of gh user ?payload w] g obtain t1 where
    t1: "w_trace w1 = w_trace w @ Request (Req_getAll ?payload) # t1"
      "filter is_listing_request t1 = []"
    by auto
  obtain w2 e2 ps2 where c: "list_complexity gh w1 ps1 = (w2, e2, ps2)"
    by (cases "list_complexity gh w1 ps1") auto
  from list_complexity_added [of gh w1 ps1] c obtain t2 where
    t2: "w_trace w2 = w_trace w1 @ t2" "filter is_listing_request t2 = []"
    by auto
  obtain w3 r3 where s: "list_statuses gh user repo w2 ps2 = (w3, r3)"
    by (cases "list_statuses gh user repo w2 ps2") auto
  from list_statuses_added [of gh user repo w2 ps2] s obtain t3 where
    t3: "w_trace w3 = w_trace w2 @ t3" "filter is_listing_request t3 = []"
    by auto
  have t12: "w_trace w2 = w_trace w @ Request (Req_getAll ?payload) # (t1 @ t2)"
    "filter is_listing_request (t1 @ t2) = []"
    using t1 t2 by simp_all
  have t123: "w_trace w3 = w_trace w @ Request (Req_getAll ?payload) # (t1 @ t2 @ t3)"
    "filter is_listing_request (t1 @ t2 @ t3) = []"
    using t1 t2 t3 by simp_all
  have t1234: "w_trace (emit (Print_listing user repo json) w3)
            = w_trace w @ Request (Req_getAll ?payload)
                # (t1 @ t2 @ t3 @ [Print_listing user repo json])"
    "filter is_listing_request (t1 @ t2 @ t3 @ [Print_listing user repo json]) = []" for json
    using t1 t2 t3 by simp_all
  have "fst (list_pulls gh user repo w) =
          (case e1 of
             Some err \<Rightarrow> w1
           | None \<Rightarrow>
               (case e2 of
                  Some err \<Rightarrow> w2
                | None \<Rightarrow>
                    (case r3 of
                       None \<Rightarrow> w3
                     | Some ps3 \<Rightarrow>
                         if ps3 \<noteq> []
                         then emit (Print_listing user repo
                                 (getPullsTemplateJson (w_options w3) ps3)) w3
                         else w3)))"
    by (simp add: list_pulls_def g c s Let_def split: option.splits)
  then consider (a) "fst (list_pulls gh user repo w) = w1"
    | (b) "fst (list_pulls gh user repo w) = w2"
    | (c) "fst (list_pulls gh user repo w) = w3"
    | (d) json where "fst (list_pulls gh user repo w) = emit (Print_listing user repo json) w3"
    by (auto split: option.splits if_splits)
  then show ?thesis
  proof cases
    case a
    with t1 show ?thesis by simp
  next
    case b
    with t12 show ?thesis by metis
  next
    case c
    with t123 show ?thesis by metis
  next
    case d
    with t1234 [of json] show ?thesis by metis
  qed
qed

lemma list_statuses_complexity:
  "snd (list_statuses gh user repo w pulls) = Some pulls' \<Longrightarrow>
   map p_complexity pulls' = map p_complexity pulls"
proof (induction pulls arbitrary: w pulls')
  case Nil
  then show ?case by simp
next
  case (Cons pull rest)
  from Cons.prems show ?case
    by (simp only: list_statuses_Cons) (auto split: sum.splits dest: Cons.IH)
qed

lemma sorted_by_complexity_map:
  "sorted_wrt (\<lambda>a b. \<not> complexity_greater b a) xs =
     sorted_wrt (\<lambda>x y. \<not> (case (y, x) of (Some c, Some d) \<Rightarrow> c > d | _ \<Rightarrow> False))
       (map p_complexity xs)"
  by (simp add: sorted_wrt_map complexity_greater_def)

lemma sorted_by_complexity_cong:
  "map p_complexity xs = map p_complexity ys \<Longrightarrow>
   sorted_wrt (\<lambda>a b. \<not> complexity_greater b a) xs
     = sorted_wrt (\<lambda>a b. \<not> complexity_greater b a) ys"
  by (simp add: sorted_by_complexity_map)

lemma sorted_by_complexity_cong_rev:
  "map p_complexity xs = map p_complexity ys \<Longrightarrow>
   sorted_wrt (\<lambda>a b. \<not> complexity_greater a b) xs
     = sorted_wrt (\<lambda>a b. \<not> complexity_greater a b) ys"
proof -
  assume m: "map p_complexity xs = map p_complexity ys"
  then have "map p_complexity (rev xs) = map p_complexity (rev ys)"
    by (simp add: rev_map [symmetric])
  from sorted_by_complexity_cong [OF this] show ?thesis
    by (simp add: sorted_wrt_rev)
qed

lemma sortPullsByComplexity_sorted:
  assumes "\<forall>p\<in>set data. p_complexity p \<noteq> None"
  shows "if o_direction opts = Some DIRECTION_ASC
         then sorted_wrt (\<lambda>a b. \<not> complexity_greater a b) (sortPullsByComplexity opts data)
         else sorted_wrt (\<lambda>a b. \<not> complexity_greater b a) (sortPullsByComplexity opts data)"
  using sorted_array_sort [OF assms]
  by (simp add: sortPullsByComplexity_def Let_def sorted_wrt_rev)

lemma list_pulls_sorted:
  assumes s: "o_sort (w_options w) = Some SORT_COMPLEXITY"
    and l: "snd (list_pulls gh user repo w) = Listed pulls json"
  shows "(\<forall>p\<in>set pulls. p_complexity p \<noteq> None)
       \<and> (if o_direction (w_options w) = Some DIRECTION_ASC
          then sorted_wrt (\<lambda>a b. \<not> complexity_greater a b) pulls
          else sorted_wrt (\<lambda>a b. \<not> complexity_greater b a) pulls)"
proof -
  let ?payload = "list_payload (w_options w) user repo"
  obtain w1 e1 ps1 where g: "list_getAll gh user ?payload w = (w1, e1, ps1)"
    by (cases "list_getAll gh user ?payload w") auto
  from list_getAll_options [of gh user ?payload w] g
  have o1: "w_options w1 = w_options w"
    by simp
  obtain wa ea d where a: "addComplexityParamToPulls gh w1 ps1 = (wa, ea, d)"
    by (cases "addComplexityParamToPulls gh w1 ps1") auto
  from addComplexity_frame [of w1 gh ps1] a
  have "same_but_number w1 wa"
    by simp
  from same_but_number_fields(4) [OF this] o1
  have dir: "o_direction (w_options wa) = o_direction (w_options w)"
    by simp
  obtain w3 r3 where st:
    "list_statuses gh user repo wa (sortPullsByComplexity (w_options wa) d) = (w3, r3)"
    by (cases "list_statuses gh user repo wa (sortPullsByComplexity (w_options wa) d)") auto
  from l have e1: "e1 = None"
    by (cases e1) (simp_all add: list_pulls_def g)
  from l s o1 have ea: "ea = None"
    by (cases ea) (simp_all add: list_pulls_def g e1 list_complexity_def a)
  from l s o1 have r3: "r3 = Some pulls"
    by (cases r3) (simp_all add: list_pulls_def g e1 list_complexity_def a ea st Let_def)
  from addComplexity_defined [of gh w1 ps1] a ea
  have def_d: "\<forall>p\<in>set d. p_complexity p \<noteq> None"
    by simp
  let ?sorted = "sortPullsByComplexity (w_options wa) d"
  from list_statuses_complexity [of gh user repo wa ?sorted pulls] st r3
  have m: "map p_complexity pulls = map p_complexity ?sorted"
    by simp
  have "set ?sorted = set d"
    by (simp add: sortPullsByComplexity_def Let_def mset_eq_setD [OF mset_array_sort])
  with def_d have "None \<notin> set (map p_complexity ?sorted)"
    by auto
  with m have "None \<notin> set (map p_complexity pulls)"
    by simp
  then have defined: "\<forall>p\<in>set pulls. p_complexity p \<noteq> None"
    by (metis image_eqI set_map)
  from sortPullsByComplexity_sorted [OF def_d, of "w_options wa"]
  have "if o_direction (w_options w) = Some DIRECTION_ASC
          then sorted_wrt (\<lambda>a b. \<not> complexity_greater a b) pulls
          else sorted_wrt (\<lambda>a b. \<not> complexity_greater b a) pulls"
    using sorted_by_complexity_cong [OF m] sorted_by_complexity_cong_rev [OF m]
    by (simp add: dir split: if_splits)
  with defined show ?thesis
    by simp
qed

lemma example_list_pulls:
  "snd (list_pulls example_remote (Some ''alice'') (Some ''one'')
          (example_world (example_options\<lparr>o_sort := Some SORT_COMPLEXITY\<rparr>)))
     = Listed example_listed
         [\<lparr>bg_name = ''master'', bg_pulls = example_listed, bg_total = 2\<rparr>]"
  by (simp add: list_pulls_def list_getAll_def list_complexity_def list_payload_def
      getPullRequest_def calculateComplexity_def weightAddition_def weightChangedFile_def
      weightComment_def weightDeletion_def weightReviewComment_def
      sortPullsByComplexity_def array_sort_def compareComplexity_def complexity_greater_def
      getPullsTemplateJson_def emit_def Let_def example_defs example_listed_def
      SORT_COMPLEXITY_def SORT_CREATED_def DIRECTION_ASC_def)

text \<open>
  Claim C8: the sort key of the listing request is \<^verbatim>\<open>created\<close> when the complexity sort
  is asked for and the key of the options otherwise, so it is never \<^verbatim>\<open>complexity\<close>; a
  listing sends exactly one listing request, with that payload; and with the complexity
  sort the pull requests handed to the callback all have a complexity and are ordered by
  it, descending (ascending for the direction \<^verbatim>\<open>asc\<close>).
\<close>

theorem listing_sort_key:
  "ga_sort (list_payload (w_options w) user repo) =
     (if o_sort (w_options w) = Some SORT_COMPLEXITY then Some SORT_CREATED
      else o_sort (w_options w))
   \<and> ga_sort (list_payload (w_options w) user repo) \<noteq> Some SORT_COMPLEXITY
   \<and> take (length (w_trace w)) (w_trace (fst (list_pulls gh user repo w))) = w_trace w
   \<and> filter is_listing_request
       (drop (length (w_trace w)) (w_trace (fst (list_pulls gh user repo w))))
       = [Request (Req_getAll (list_payload (w_options w) user repo))]
   \<and> (\<forall>pulls json.
         o_sort (w_options w) = Some SORT_COMPLEXITY
         \<and> snd (list_pulls gh user repo w) = Listed pulls json
         \<longrightarrow> (\<forall>p\<in>set pulls. p_complexity p \<noteq> None)
             \<and> (if o_direction (w_options w) = Some DIRECTION_ASC
                then sorted_wrt (\<lambda>a b. \<not> complexity_greater a b) pulls
                else sorted_wrt (\<lambda>a b. \<not> complexity_greater b a) pulls))"
proof -
  have key: "ga_sort (list_payload (w_options w) user repo) =
     (if o_sort (w_options w) = Some SORT_COMPLEXITY then Some SORT_CREATED
      else o_sort (w_options w))"
    by (simp add: list_payload_def)
  then have never: "ga_sort (list_payload (w_options w) user repo) \<noteq> Some SORT_COMPLEXITY"
    by (simp add: SORT_COMPLEXITY_def SORT_CREATED_def)
  from list_pulls_added [of gh user repo w] obtain ts where
    ts: "w_trace (fst (list_pulls gh user repo w))
           = w_trace w @ Request (Req_getAll (list_payload (w_options w) user repo)) # ts"
      "filter is_listing_request ts = []"
    by blast
  have kept: "take (length (w_trace w)) (w_trace (fst (list_pulls gh user repo w))) = w_trace w"
    by (simp add: ts(1))
  have one: "filter is_listing_request
       (drop (length (w_trace w)) (w_trace (fst (list_pulls gh user repo w))))
       = [Request (Req_getAll (list_payload (w_options w) user repo))]"
    by (simp add: ts)
  from key never kept one list_pulls_sorted [of w gh user repo] show ?thesis
    by blast
qed

theorem listing_sort_key_witness:
  "ga_sort (list_payload (example_options\<lparr>o_sort := Some SORT_COMPLEXITY\<rparr>)
              (Some ''alice'') (Some ''one'')) = Some ''created''
   \<and> snd (list_pulls example_remote (Some ''alice'') (Some ''one'')
          (example_world (example_options\<lparr>o_sort := Some SORT_COMPLEXITY\<rparr>)))
     = Listed example_listed
         [\<lparr>bg_name = ''master'', bg_pulls = example_listed, bg_total = 2\<rparr>]
   \<and> sorted_wrt (\<lambda>a b. \<not> complexity_greater b a) example_listed"
proof -
  let ?w = "example_world (example_options\<lparr>o_sort := Some SORT_COMPLEXITY\<rparr>)"
  have s: "o_sort (w_options ?w) = Some SORT_COMPLEXITY"
    by (simp add: example_defs)
  have d: "o_direction (w_options ?w) \<noteq> Some DIRECTION_ASC"
    by (simp add: example_defs)
  note l = example_list_pulls
  from listing_sort_key [of ?w "Some ''alice''" "Some ''one''" example_remote] s l d
  have "sorted_wrt (\<lambda>a b. \<not> complexity_greater b a) example_listed"
    by (simp del: sorted_wrt.simps)
  moreover from listing_sort_key [of ?w "Some ''alice''" "Some ''one''" example_remote] s
  have "ga_sort (list_payload (example_options\<lparr>o_sort := Some SORT_COMPLEXITY\<rparr>)
              (Some ''alice'') (Some ''one'')) = Some ''created''"
    by (simp add: example_defs SORT_CREATED_def)
  ultimately show ?thesis
    using l by simp
qed

end
